theory Spec2Isabelle
  imports Complex_Main "HOL-Library.Sublist" "HOL-Library.AList"
begin

section \<open>ChunkGPT: the Chunker class of \<^verbatim>\<open>chunkgpt.py\<close>\<close>

text \<open>
  The development embeds the \<^verbatim>\<open>Chunker\<close> class: its constructor, the token budget
  helpers, the chunking loop, the retrying completion call and the recursive
  \<^verbatim>\<open>summarize\<close> method.

  Conventions of the embedding:
  \<^item> Python integers are \<open>int\<close>; the float quantities (temperature, price and cost) are
    \<open>real\<close>, so cost arithmetic is exact and NaN does not exist;
  \<^item> a raised exception is the \<open>Inl\<close> of a sum type;
  \<^item> the tokenizer (tiktoken) and the completion service (openai) are libraries outside the
    module; they are parameters of the model;
  \<^item> a method name loses its leading underscore (\<^verbatim>\<open>_chunk\<close> is \<open>chunk\<close>);
  \<^item> console output (\<^verbatim>\<open>print\<close>) and the one second sleep between retries are left out.
\<close>

subsection \<open>Module constants\<close>

definition SYSTEM_MSG :: string where
  "SYSTEM_MSG =
     ''You are SUMMIFY, a specialized AI assistant '' @
     ''purpose-built to read long pieces of text and produce a concise '' @
     ''summary that greatly reduces the overall length of the text '' @
     ''without leaving out any critical details.\<newline>'' @
     ''\<newline>'' @
     ''Users will hand you an entire document, or just a portion of the '' @
     ''document, and it is your job to summarize the content in as few '' @
     ''words as possible, while conveying the essential meaning of the text.\<newline>'' @
     ''\<newline>'' @
     ''Your summary MUST paraphrase the document you are given so that '' @
     ''it can directly replace the document 1-for-1, but with a shorter length.\<newline>'' @
     ''\<newline>'' @
     ''Your summary MUST be concise.\<newline>'' @
     ''Your summary MUST be comprehensive.\<newline>'' @
     ''Your summary MUST include a concise list of ALL KEY POINTS.\<newline>'' @
     ''Your summary MUST exclude any unnecessary fluff.\<newline>''"

text \<open>\<^verbatim>\<open>USER_MSG.format(text)\<close>: the template has one replacement field.\<close>

definition USER_MSG_format :: "string \<Rightarrow> string" where
  "USER_MSG_format text =
     ''\<newline>TEXT EXCERPT:\<newline>'' @ text @ ''\<newline>\<newline>SUMMARY:\<newline>''"

subsection \<open>Python values, exceptions, built-ins\<close>

datatype pyval = PyNone | PyStr string | PyInt int | PyBool bool | PyFloat real

text \<open>\<^verbatim>\<open>isinstance(v, int)\<close> holds for a bool too, which then counts as 0 or 1.\<close>

fun int_instance :: "pyval \<Rightarrow> int option" where
  "int_instance (PyInt i) = Some i"
| "int_instance (PyBool b) = Some (if b then 1 else 0)"
| "int_instance _ = None"

fun str_instance :: "pyval \<Rightarrow> string option" where
  "str_instance (PyStr s) = Some s"
| "str_instance _ = None"

fun float_instance :: "pyval \<Rightarrow> real option" where
  "float_instance (PyFloat r) = Some r"
| "float_instance _ = None"

datatype cause =
    ModelListUnavailable
  | ModelNotFound
  | MaxChunkLengthNotPositive
  | ChunkOverlapNegative
  | ChunkOverlapTooLarge
  | SummaryLengthNotPositive
  | TemperatureOutOfRange
  | TokenLimitExceeded int
  | RangeStepZero
  | UnableToReturnCompletion
  | FinalStepUnrecognized string

datatype error =
    TypeError string
  | ValueError cause
  | KeyError string

text \<open>
  \<^verbatim>\<open>range(start, stop, step)\<close> as the list a \<^verbatim>\<open>for\<close> loop walks: a zero step raises
  \<^verbatim>\<open>ValueError\<close>, a positive one counts up while below \<open>stop\<close>, a negative one counts down
  while above it.
\<close>

function range_up :: "int \<Rightarrow> int \<Rightarrow> int \<Rightarrow> int list" where
  "range_up i stop step =
     (if 0 < step \<and> i < stop then i # range_up (i + step) stop step else [])"
  by pat_completeness auto
termination
  by (relation "measure (\<lambda>(i, stop, step). nat (stop - i))") auto

function range_down :: "int \<Rightarrow> int \<Rightarrow> int \<Rightarrow> int list" where
  "range_down i stop step =
     (if step < 0 \<and> stop < i then i # range_down (i + step) stop step else [])"
  by pat_completeness auto
termination
  by (relation "measure (\<lambda>(i, stop, step). nat (i - stop))") auto

definition py_range :: "int \<Rightarrow> int \<Rightarrow> int \<Rightarrow> error + int list" where
  "py_range start stop step =
     (if step = 0 then Inl (ValueError RangeStepZero)
      else if 0 < step then Inr (range_up start stop step)
      else Inr (range_down start stop step))"

text \<open>
  \<^verbatim>\<open>xs[start:stop]\<close>: a negative index counts from the end, and both indices are clipped to
  the list. \<open>slice_indices\<close> gives the clipped bounds for a list of length \<open>n\<close>.
\<close>

definition adjust_index :: "int \<Rightarrow> int \<Rightarrow> int" where
  "adjust_index n i = (if i < 0 then max (i + n) 0 else min i n)"

definition slice_indices :: "int \<Rightarrow> int \<Rightarrow> int \<Rightarrow> int \<times> int" where
  "slice_indices n start stop = (adjust_index n start, adjust_index n stop)"

definition py_slice :: "'a list \<Rightarrow> int \<Rightarrow> int \<Rightarrow> 'a list" where
  "py_slice xs start stop =
     (let (s, e) = slice_indices (int (length xs)) start stop
      in take (nat (e - s)) (drop (nat s) xs))"

text \<open>\<^verbatim>\<open>enumerate(xs)\<close>, counting from \<open>i\<close>.\<close>

fun py_enumerate :: "int \<Rightarrow> 'a list \<Rightarrow> (int \<times> 'a) list" where
  "py_enumerate i [] = []"
| "py_enumerate i (x # xs) = (i, x) # py_enumerate (i + 1) xs"

text \<open>\<^verbatim>\<open>str(n)\<close> for an integer, as the f-strings of the step log need it.\<close>

definition digit_char :: "nat \<Rightarrow> char" where
  "digit_char d = char_of (48 + d)"

function str_nat :: "nat \<Rightarrow> string" where
  "str_nat n = (if n < 10 then [digit_char n] else str_nat (n div 10) @ [digit_char (n mod 10)])"
  by pat_completeness auto
termination
  by (relation "measure id") auto

definition str_int :: "int \<Rightarrow> string" where
  "str_int i = (if i < 0 then CHR ''-'' # str_nat (nat (- i)) else str_nat (nat i))"

subsection \<open>The Chunker object\<close>

text \<open>
  The encoding object of the tokenizer library: \<^verbatim>\<open>encoding.encode\<close> and
  \<^verbatim>\<open>encoding.decode\<close>. Tokens are numbers.
\<close>

record encoding =
  encode :: "string \<Rightarrow> nat list"
  decode :: "nat list \<Rightarrow> string"

record chunker =
  model :: string
  api_key :: string
  max_chunk_length :: int
  chunk_overlap :: int
  summary_length :: int
  temperature :: real
  system_msg :: string
  encoding :: encoding
  token_limit :: int
  price_per_token :: real

definition tokenize :: "chunker \<Rightarrow> string \<Rightarrow> nat list" where
  "tokenize self text = encode (encoding self) text"

definition decode_tokens :: "chunker \<Rightarrow> nat list \<Rightarrow> string" where
  "decode_tokens self tokens = decode (encoding self) tokens"

text \<open>\<^verbatim>\<open>_get_token_limit\<close> and \<^verbatim>\<open>_get_price_per_token\<close> read \<^verbatim>\<open>self.model\<close> only.\<close>

definition get_token_limit :: "string \<Rightarrow> int" where
  "get_token_limit m =
     (if prefix ''gpt-3.5-turbo-16k'' m then 16384
      else if prefix ''gpt-4-32k'' m then 32768
      else if prefix ''gpt-4'' m then 8192
      else 4096)"

definition get_price_per_token :: "string \<Rightarrow> real" where
  "get_price_per_token m =
     (if prefix ''gpt-3.5-turbo-16k'' m then 3 / 10000
      else if prefix ''gpt-4-32k'' m then 6 / 1000
      else if prefix ''gpt-4'' m then 3 / 1000
      else 15 / 100000)"

definition get_complete_token_count :: "chunker \<Rightarrow> string \<Rightarrow> int" where
  "get_complete_token_count self text =
     (let system_msg_token_cnt = int (length (tokenize self (system_msg self)));
          user_msg_token_cnt = int (length (tokenize self (USER_MSG_format text)));
          summary_token_cnt = summary_length self;
          total = system_msg_token_cnt + user_msg_token_cnt + summary_token_cnt
      in total)"

definition get_base_token_count :: "chunker \<Rightarrow> int" where
  "get_base_token_count self =
     (let system_msg_token_cnt = int (length (tokenize self (system_msg self)));
          user_msg_token_cnt = int (length (tokenize self (USER_MSG_format '''')));
          total = system_msg_token_cnt + user_msg_token_cnt
      in total)"

subsection \<open>Chunking\<close>

definition chunk :: "chunker \<Rightarrow> string \<Rightarrow> error + string list" where
  "chunk self text =
     (let total_cnt = get_complete_token_count self text
      in if total_cnt < token_limit self then Inr [text]
         else
           let tokens = tokenize self text;
               chunk_step = max_chunk_length self - chunk_overlap self
           in case py_range 0 (int (length tokens)) chunk_step of
                Inl e \<Rightarrow> Inl e
              | Inr starts \<Rightarrow>
                  Inr (map (\<lambda>i. decode_tokens self (py_slice tokens i (i + max_chunk_length self)))
                         starts))"

text \<open>
  The token windows of the loop in \<open>chunk\<close>, as index pairs \<open>(start, end)\<close> with \<open>end\<close>
  exclusive: for each \<open>i\<close> of the range, the bounds that the slice
  \<^verbatim>\<open>tokens[i:i + max_chunk_length]\<close> reads.
\<close>

definition chunk_windows :: "chunker \<Rightarrow> nat list \<Rightarrow> error + (int \<times> int) list" where
  "chunk_windows self tokens =
     (case py_range 0 (int (length tokens)) (max_chunk_length self - chunk_overlap self) of
        Inl e \<Rightarrow> Inl e
      | Inr starts \<Rightarrow>
          Inr (map (\<lambda>i. slice_indices (int (length tokens)) i (i + max_chunk_length self))
                 starts))"

definition window_tokens :: "'a list \<Rightarrow> int \<times> int \<Rightarrow> 'a list" where
  "window_tokens tokens w = take (nat (snd w - fst w)) (drop (nat (fst w)) tokens)"

definition in_window :: "int \<Rightarrow> int \<times> int \<Rightarrow> bool" where
  "in_window i w = (fst w \<le> i \<and> i < snd w)"

definition cover_count :: "(int \<times> int) list \<Rightarrow> int \<Rightarrow> nat" where
  "cover_count ws i = length (filter (in_window i) ws)"

text \<open>
  The window number \<open>k\<close> of a chunking with stride \<open>step\<close> and chunk length \<open>maxl\<close> over
  \<open>n\<close> tokens: it starts at \<open>k * step\<close> and ends at \<open>k * step + maxl\<close>, clipped to \<open>n\<close>.
\<close>

definition stride_window :: "int \<Rightarrow> int \<Rightarrow> int \<Rightarrow> nat \<Rightarrow> int \<times> int" where
  "stride_window step maxl n k = (int k * step, min (int k * step + maxl) n)"

subsection \<open>Construction\<close>

text \<open>
  What the constructor asks of the world: the model identifiers that
  \<^verbatim>\<open>openai.Model.list()\<close> returns (\<open>None\<close> when the call raises), and the tokenizer
  library's \<^verbatim>\<open>encoding_for_model\<close> (\<open>None\<close> when it raises \<^verbatim>\<open>KeyError\<close>).
\<close>

record services =
  model_list :: "string list option"
  encoding_for_model :: "string \<Rightarrow> encoding option"

definition Chunker_init ::
  "services \<Rightarrow> pyval \<Rightarrow> pyval \<Rightarrow> pyval \<Rightarrow> pyval \<Rightarrow> pyval \<Rightarrow> pyval \<Rightarrow> string option
     \<Rightarrow> error + chunker" where
  "Chunker_init sv api_key_arg model_arg max_chunk_length_arg chunk_overlap_arg
       summary_length_arg temperature_arg custom_system_msg =
     (case str_instance api_key_arg of
        None \<Rightarrow> Inl (TypeError ''api_key'')
      | Some key \<Rightarrow>
     (case model_list sv of
        None \<Rightarrow> Inl (ValueError ModelListUnavailable)
      | Some models \<Rightarrow>
     (case str_instance model_arg of
        None \<Rightarrow> Inl (TypeError ''model'')
      | Some m \<Rightarrow>
     if m \<notin> set models then Inl (ValueError ModelNotFound) else
     (case int_instance max_chunk_length_arg of
        None \<Rightarrow> Inl (TypeError ''max_chunk_length'')
      | Some mcl \<Rightarrow>
     if mcl \<le> 0 then Inl (ValueError MaxChunkLengthNotPositive) else
     (case int_instance chunk_overlap_arg of
        None \<Rightarrow> Inl (TypeError ''chunk_overlap'')
      | Some ov \<Rightarrow>
     if ov < 0 then Inl (ValueError ChunkOverlapNegative) else
     if ov > mcl then Inl (ValueError ChunkOverlapTooLarge) else
     (case int_instance summary_length_arg of
        None \<Rightarrow> Inl (TypeError ''summary_length'')
      | Some sl \<Rightarrow>
     if sl \<le> 0 then Inl (ValueError SummaryLengthNotPositive) else
     (case float_instance temperature_arg of
        None \<Rightarrow> Inl (TypeError ''temperature'')
      | Some t \<Rightarrow>
     if t < 0 \<or> t > 2 then Inl (ValueError TemperatureOutOfRange) else
     (case encoding_for_model sv m of
        None \<Rightarrow> Inl (KeyError m)
      | Some enc \<Rightarrow>
     let self = \<lparr> model = m, api_key = key, max_chunk_length = mcl, chunk_overlap = ov,
                  summary_length = sl, temperature = t,
                  system_msg = (case custom_system_msg of
                                  None \<Rightarrow> SYSTEM_MSG
                                | Some msg \<Rightarrow> if msg = [] then SYSTEM_MSG else msg),
                  encoding = enc,
                  token_limit = get_token_limit m,
                  price_per_token = get_price_per_token m \<rparr>;
         allowed_tokens = get_base_token_count self + sl + mcl
     in if allowed_tokens > token_limit self
        then Inl (ValueError (TokenLimitExceeded (allowed_tokens - token_limit self)))
        else Inr self))))))))"

subsection \<open>The completion service and the retrying call\<close>

record request =
  req_model :: string
  req_temperature :: real
  req_messages :: "(string \<times> string) list"
  req_max_tokens :: int

text \<open>
  Of a completion the code reads \<^verbatim>\<open>['choices'][0]['message']['content']\<close> and
  \<^verbatim>\<open>['usage']['total_tokens']\<close>.
\<close>

record completion =
  content :: string
  usage_total_tokens :: int

text \<open>
  \<^verbatim>\<open>openai.ChatCompletion.create\<close> is a function of the request and of a hidden state
  \<open>'w\<close> of the service: it returns a completion or raises (\<open>Inl\<close>, with the exception's
  text), and moves the state on. The \<open>net\<close> record holds that state together with the
  requests issued so far, in order.
\<close>

type_synonym 'w client = "request \<Rightarrow> 'w \<Rightarrow> (string + completion) \<times> 'w"

record 'w net =
  world :: 'w
  sent :: "request list"

definition ChatCompletion_create ::
  "'w client \<Rightarrow> request \<Rightarrow> 'w net \<Rightarrow> (string + completion) \<times> 'w net" where
  "ChatCompletion_create cl rq nt =
     (let (r, w') = cl rq (world nt)
      in (r, nt\<lparr>world := w', sent := sent nt @ [rq]\<rparr>))"

definition construct_messages :: "chunker \<Rightarrow> string \<Rightarrow> (string \<times> string) list" where
  "construct_messages self text =
     [(''system'', system_msg self), (''user'', USER_MSG_format text)]"

definition completion_request :: "chunker \<Rightarrow> string \<Rightarrow> request" where
  "completion_request self text =
     \<lparr> req_model = model self, req_temperature = temperature self,
       req_messages = construct_messages self text, req_max_tokens = summary_length self \<rparr>"

function get_completion ::
  "'w client \<Rightarrow> chunker \<Rightarrow> string \<Rightarrow> int \<Rightarrow> 'w net \<Rightarrow> (error + completion) \<times> 'w net" where
  "get_completion cl self text num_retries nt =
     (case ChatCompletion_create cl (completion_request self text) nt of
        (Inr completion, nt') \<Rightarrow> (Inr completion, nt')
      | (Inl e, nt') \<Rightarrow>
          if num_retries > 0 then get_completion cl self text (num_retries - 1) nt'
          else (Inl (ValueError UnableToReturnCompletion), nt'))"
  by pat_completeness auto
termination
  by (relation "measure (\<lambda>(cl, self, text, num_retries, nt). nat num_retries)") auto

declare get_completion.simps [simp del]

text \<open>
  Repeating one request: \<open>world_after cl rq w j\<close> is the state of the service after \<open>j\<close>
  attempts with the request \<open>rq\<close> from the state \<open>w\<close>, \<open>attempt cl rq w j\<close> is the outcome
  of the next attempt (attempt number \<open>j + 1\<close>), and \<open>after_attempts cl rq j nt\<close> is the
  network record once \<open>j\<close> attempts have been made.
\<close>

fun world_after :: "'w client \<Rightarrow> request \<Rightarrow> 'w \<Rightarrow> nat \<Rightarrow> 'w" where
  "world_after cl rq w 0 = w"
| "world_after cl rq w (Suc j) = world_after cl rq (snd (cl rq w)) j"

definition attempt :: "'w client \<Rightarrow> request \<Rightarrow> 'w \<Rightarrow> nat \<Rightarrow> string + completion" where
  "attempt cl rq w j = fst (cl rq (world_after cl rq w j))"

definition after_attempts :: "'w client \<Rightarrow> request \<Rightarrow> nat \<Rightarrow> 'w net \<Rightarrow> 'w net" where
  "after_attempts cl rq j nt =
     nt\<lparr>world := world_after cl rq (world nt) j, sent := sent nt @ replicate j rq\<rparr>"

subsection \<open>Summarizing\<close>

record chunk_io =
  chunk_input :: string
  chunk_output :: string

record summary =
  original :: string
  result :: string
  chunks :: "(int \<times> chunk_io) list"
  intermediate_steps :: "string list"
  total_tokens :: int
  cost :: real

text \<open>The summary dictionary as \<^verbatim>\<open>summarize\<close> initializes it.\<close>

definition initial_summary :: "string \<Rightarrow> summary" where
  "initial_summary text =
     \<lparr> original = text, result = [], chunks = [], intermediate_steps = [],
       total_tokens = 0, cost = 0 \<rparr>"

text \<open>
  The \<^verbatim>\<open>for i, chunk in enumerate(chunks)\<close> loop of \<^verbatim>\<open>summarize\<close>. Its state is the
  string \<^verbatim>\<open>combined_summaries\<close> and the summary dictionary; an exception of
  \<^verbatim>\<open>_get_completion\<close> leaves the loop. The \<^verbatim>\<open>chunks\<close> dictionary keeps insertion
  order, so it is an association list: \<open>AList.update\<close> replaces the value of a key that is
  present and appends a new key at the end.
\<close>

fun summarize_chunks ::
  "'w client \<Rightarrow> chunker \<Rightarrow> (int \<times> string) list \<Rightarrow> string \<times> summary \<Rightarrow> 'w net
     \<Rightarrow> (error + string \<times> summary) \<times> 'w net" where
  "summarize_chunks cl self [] st nt = (Inr st, nt)"
| "summarize_chunks cl self ((i, chunk_text) # rest) (combined_summaries, summary) nt =
     (case get_completion cl self chunk_text 3 nt of
        (Inl e, nt') \<Rightarrow> (Inl e, nt')
      | (Inr completion, nt') \<Rightarrow>
          let content' = content completion;
              combined_summaries' = combined_summaries @ content' @ ''\<newline>'';
              total_tokens' = usage_total_tokens completion;
              step = ''Got completion for chunk '' @ str_int (i + 1) @ ''.'';
              summary' = summary
                \<lparr> chunks := AList.update (i + 1) \<lparr>chunk_input = chunk_text, chunk_output = content'\<rparr>
                              (chunks summary),
                  total_tokens := total_tokens summary + total_tokens',
                  cost := cost summary + real_of_int total_tokens' * price_per_token self,
                  intermediate_steps := intermediate_steps summary @ [step] \<rparr>
          in summarize_chunks cl self rest (combined_summaries', summary') nt')"

text \<open>
  The three ways \<^verbatim>\<open>summarize\<close> ends once the chunk loop is through: returning the
  combined summaries, merging the result of the recursive call, and the final completion.
\<close>

definition finish_combine :: "string \<Rightarrow> summary \<Rightarrow> summary" where
  "finish_combine combined_summaries summary =
     summary
       \<lparr> result := combined_summaries,
         intermediate_steps :=
           intermediate_steps summary @ [''Returned combined summaries as final step.''] \<rparr>"

definition finish_reduced :: "chunker \<Rightarrow> int \<Rightarrow> summary \<Rightarrow> summary \<Rightarrow> summary" where
  "finish_reduced self combined_token_cnt summary reduced_summary =
     (let new_token_cnt = get_complete_token_count self (result reduced_summary);
          step = ''Reduced summary from '' @ str_int combined_token_cnt @ '' to '' @
                 str_int new_token_cnt @ ''.''
      in summary
           \<lparr> total_tokens := total_tokens summary + total_tokens reduced_summary,
             cost := cost summary + cost reduced_summary,
             intermediate_steps := intermediate_steps summary @ [step],
             result := result reduced_summary \<rparr>)"

definition finish_completion ::
  "'w client \<Rightarrow> chunker \<Rightarrow> string \<Rightarrow> summary \<Rightarrow> 'w net \<Rightarrow> (error + summary) \<times> 'w net" where
  "finish_completion cl self combined_summaries summary nt =
     (case get_completion cl self combined_summaries 3 nt of
        (Inl e, nt') \<Rightarrow> (Inl e, nt')
      | (Inr completion, nt') \<Rightarrow>
          let total_tokens' = usage_total_tokens completion
          in (Inr (summary
                \<lparr> result := content completion,
                  total_tokens := total_tokens summary + total_tokens',
                  cost := cost summary + real_of_int total_tokens' * price_per_token self,
                  intermediate_steps :=
                    intermediate_steps summary @ [''Got completion for combined summaries.''] \<rparr>),
              nt'))"

text \<open>
  \<^verbatim>\<open>summarize\<close> calls itself on the combined summaries, and nothing in the code bounds
  the depth: the function is partial, and \<open>None\<close> stands for a call that never returns.
\<close>

partial_function (option) summarize ::
  "'w client \<Rightarrow> chunker \<Rightarrow> string \<Rightarrow> string \<Rightarrow> 'w net \<Rightarrow> ((error + summary) \<times> 'w net) option"
where
  "summarize cl self text final_step nt =
     (let summary0 = initial_summary text
      in case chunk self text of
           Inl e \<Rightarrow> Some (Inl e, nt)
         | Inr chunk_list \<Rightarrow>
             (case summarize_chunks cl self (py_enumerate 0 chunk_list) ([], summary0) nt of
                (Inl e, nt1) \<Rightarrow> Some (Inl e, nt1)
              | (Inr (combined_summaries, summary), nt1) \<Rightarrow>
                  let combined_token_cnt = get_complete_token_count self combined_summaries
                  in if final_step = ''combine''
                     then Some (Inr (finish_combine combined_summaries summary), nt1)
                     else if final_step = ''summarize'' \<and> combined_token_cnt \<ge> token_limit self
                     then Option.bind (summarize cl self combined_summaries ''summarize'' nt1)
                            (\<lambda>(r, nt2). case r of
                                 Inl e \<Rightarrow> Some (Inl e, nt2)
                               | Inr reduced_summary \<Rightarrow>
                                   Some (Inr (finish_reduced self combined_token_cnt summary
                                                reduced_summary), nt2))
                     else if final_step = ''summarize''
                     then Some (finish_completion cl self combined_summaries summary nt1)
                     else Some (Inl (ValueError (FinalStepUnrecognized final_step)), nt1)))"

declare summarize.simps [code]

subsection \<open>Example configurations\<close>

text \<open>
  A tokenizer with one token per character, a service that lists two models, and the
  Chunker objects that the examples below use (all on \<^verbatim>\<open>gpt-3.5-turbo\<close>, whose token limit
  is 4096; the default system prompt has 724 characters and the empty template 26).
\<close>

definition char_encoding :: encoding where
  "char_encoding = \<lparr> encode = map of_char, decode = map char_of \<rparr>"

definition demo_services :: services where
  "demo_services = \<lparr> model_list = Some [''gpt-3.5-turbo'', ''gpt-4''],
                      encoding_for_model = (\<lambda>m. Some char_encoding) \<rparr>"

definition demo_chunker :: "int \<Rightarrow> int \<Rightarrow> int \<Rightarrow> chunker" where
  "demo_chunker mcl ov sl =
     \<lparr> model = ''gpt-3.5-turbo'', api_key = ''sk'', max_chunk_length = mcl, chunk_overlap = ov,
       summary_length = sl, temperature = 0, system_msg = SYSTEM_MSG,
       encoding = char_encoding, token_limit = 4096, price_per_token = 15 / 100000 \<rparr>"

text \<open>
  A service that plays a script: each request takes the next outcome of the list, and a
  service whose script is over fails.
\<close>

definition scripted :: "(string + completion) list client" where
  "scripted rq w = (case w of [] \<Rightarrow> (Inl ''no answer'', []) | r # rs \<Rightarrow> (r, rs))"

definition demo_completion :: "string \<Rightarrow> int \<Rightarrow> completion" where
  "demo_completion s n = \<lparr> content = s, usage_total_tokens = n \<rparr>"

definition text16 :: string where
  "text16 = ''abcdefghijklmnop''"

definition text25 :: string where
  "text25 = ''abcdefghijklmnopqrstuvwxy''"

text \<open>
  The invariant of a returned summary: the cost is the token total times the price, the
  original is the input text, and the keys of the chunk dictionary are 1 to the number of
  chunks, in order.
\<close>

definition summary_ok :: "chunker \<Rightarrow> string \<Rightarrow> summary \<Rightarrow> bool" where
  "summary_ok self text s =
     (cost s = real_of_int (total_tokens s) * price_per_token self
      \<and> original s = text
      \<and> (case chunk self text of Inl e \<Rightarrow> False
          | Inr cs \<Rightarrow> map fst (chunks s) = [1..int (length cs)]))"

text \<open>Two runs of \<^verbatim>\<open>summarize\<close> on a short text: one whose combined summaries do not
  fit, so that the call recurses, and one whose combined summaries fit.\<close>

definition reduce_script :: "(string + completion) list" where
  "reduce_script = [Inr (demo_completion ''fifteen letters'' 7), Inr (demo_completion ''a'' 1),
                    Inr (demo_completion ''b'' 2), Inr (demo_completion ''fin'' 3)]"

definition reduce_requests :: "request list" where
  "reduce_requests = map (completion_request (demo_chunker 10 2 3330))
                       [''abc'', ''fifteen le'', ''letters\<newline>'', ''a\<newline>b\<newline>'']"

definition reduce_summary :: summary where
  "reduce_summary =
     \<lparr> original = ''abc'', result = ''fin'',
       chunks = [(1, \<lparr>chunk_input = ''abc'', chunk_output = ''fifteen letters''\<rparr>)],
       intermediate_steps = [''Got completion for chunk 1.'',
                             ''Reduced summary from 4096 to 4083.''],
       total_tokens = 13, cost = 13 * (15 / 100000) \<rparr>"

text \<open>The summary that the recursive call of the first run returns.\<close>

definition inner_summary :: summary where
  "inner_summary =
     \<lparr> original = ''fifteen letters\<newline>'', result = ''fin'',
       chunks = [(1, \<lparr>chunk_input = ''fifteen le'', chunk_output = ''a''\<rparr>),
                 (2, \<lparr>chunk_input = ''letters\<newline>'', chunk_output = ''b''\<rparr>)],
       intermediate_steps = [''Got completion for chunk 1.'', ''Got completion for chunk 2.'',
                             ''Got completion for combined summaries.''],
       total_tokens = 6, cost = 6 * (15 / 100000) \<rparr>"

definition fit_script :: "(string + completion) list" where
  "fit_script = [Inr (demo_completion ''s'' 7), Inr (demo_completion ''fin'' 3)]"

definition after_first_chunk :: "string \<Rightarrow> summary" where
  "after_first_chunk out =
     \<lparr> original = ''abc'', result = [],
       chunks = [(1, \<lparr>chunk_input = ''abc'', chunk_output = out\<rparr>)],
       intermediate_steps = [''Got completion for chunk 1.''],
       total_tokens = 7, cost = 7 * (15 / 100000) \<rparr>"

section \<open>Properties\<close>

subsection \<open>Helper facts\<close>

lemma length_SYSTEM_MSG: "length SYSTEM_MSG = 724"
  by (simp add: SYSTEM_MSG_def)

lemma length_USER_MSG_format: "length (USER_MSG_format text) = 26 + length text"
  by (simp add: USER_MSG_format_def)

lemma char_base_count:
  assumes "system_msg self = SYSTEM_MSG" and "encoding self = char_encoding"
  shows "get_base_token_count self = 750"
  using assms
  by (simp add: get_base_token_count_def tokenize_def char_encoding_def
      length_SYSTEM_MSG length_USER_MSG_format)

lemma char_complete_count:
  assumes "system_msg self = SYSTEM_MSG" and "encoding self = char_encoding"
  shows "get_complete_token_count self text = 750 + int (length text) + summary_length self"
  using assms
  by (simp add: get_complete_token_count_def tokenize_def char_encoding_def
      length_SYSTEM_MSG length_USER_MSG_format)

lemma demo_fields:
  "max_chunk_length (demo_chunker mcl ov sl) = mcl"
  "chunk_overlap (demo_chunker mcl ov sl) = ov"
  "summary_length (demo_chunker mcl ov sl) = sl"
  "token_limit (demo_chunker mcl ov sl) = 4096"
  "system_msg (demo_chunker mcl ov sl) = SYSTEM_MSG"
  "encoding (demo_chunker mcl ov sl) = char_encoding"
  by (simp_all add: demo_chunker_def)

lemma demo_complete_count:
  "get_complete_token_count (demo_chunker mcl ov sl) text = 750 + int (length text) + sl"
  by (simp add: char_complete_count demo_fields)

lemma demo_base_count: "get_base_token_count (demo_chunker mcl ov sl) = 750"
  by (simp add: char_base_count demo_fields)

lemma demo_init:
  assumes "0 < mcl" "0 \<le> ov" "ov \<le> mcl" "0 < sl" "750 + sl + mcl \<le> 4096"
  shows "Chunker_init demo_services (PyStr ''sk'') (PyStr ''gpt-3.5-turbo'') (PyInt mcl)
           (PyInt ov) (PyInt sl) (PyFloat 0) None = Inr (demo_chunker mcl ov sl)"
proof -
  have lim: "get_token_limit ''gpt-3.5-turbo'' = 4096"
    by (simp add: get_token_limit_def)
  have price: "get_price_per_token ''gpt-3.5-turbo'' = 15 / 100000"
    by (simp add: get_price_per_token_def)
  show ?thesis
    using assms
    by (simp add: Chunker_init_def demo_services_def lim price Let_def
        char_base_count demo_chunker_def)
qed

lemma chunk_fit:
  "get_complete_token_count self text < token_limit self \<Longrightarrow> chunk self text = Inr [text]"
  by (simp add: chunk_def)

lemma chunk_split:
  assumes "token_limit self \<le> get_complete_token_count self text"
  shows "chunk self text =
           (case chunk_windows self (tokenize self text) of
              Inl e \<Rightarrow> Inl e
            | Inr ws \<Rightarrow> Inr (map (\<lambda>w. decode_tokens self (window_tokens (tokenize self text) w)) ws))"
  using assms
  by (simp add: chunk_def chunk_windows_def py_slice_def window_tokens_def slice_indices_def
      Let_def comp_def split: sum.splits)

lemma range_up_0_25_8: "range_up 0 25 8 = [0, 8, 16, 24]"
  by simp

lemma world_after_Suc_right:
  "world_after cl rq w (Suc j) = snd (cl rq (world_after cl rq w j))"
  by (induction j arbitrary: w) simp_all

lemma after_attempts_step:
  "after_attempts cl rq j (snd (ChatCompletion_create cl rq nt)) = after_attempts cl rq (Suc j) nt"
  by (simp add: after_attempts_def ChatCompletion_create_def split_beta replicate_app_Cons_same)

lemma get_completion_success_first:
  assumes "attempt cl (completion_request self text) (world nt) 0 = Inr c"
  shows "get_completion cl self text n nt
           = (Inr c, after_attempts cl (completion_request self text) 1 nt)"
  using assms
  by (subst get_completion.simps)
     (simp add: attempt_def ChatCompletion_create_def after_attempts_def split_beta
      split: sum.splits prod.splits)

lemma get_completion_succeeds_after:
  assumes "\<forall>j<k. isl (attempt cl (completion_request self text) (world nt) j)"
    and "attempt cl (completion_request self text) (world nt) k = Inr c"
    and "int k \<le> n"
  shows "get_completion cl self text n nt
           = (Inr c, after_attempts cl (completion_request self text) (Suc k) nt)"
  using assms
proof (induction k arbitrary: n nt)
  case 0
  then show ?case using get_completion_success_first by simp
next
  case (Suc k)
  let ?rq = "completion_request self text"
  obtain r nt' where step: "ChatCompletion_create cl ?rq nt = (r, nt')"
    by (cases "ChatCompletion_create cl ?rq nt")
  have w': "world nt' = snd (cl ?rq (world nt))"
    using step by (auto simp: ChatCompletion_create_def split_beta)
  have r: "r = attempt cl ?rq (world nt) 0"
    using step by (auto simp: ChatCompletion_create_def split_beta attempt_def)
  from Suc.prems(1) have "isl (attempt cl ?rq (world nt) 0)" by blast
  with r obtain e where e: "r = Inl e" by (metis isl_def)
  have shift: "\<And>j. attempt cl ?rq (world nt') j = attempt cl ?rq (world nt) (Suc j)"
    by (simp add: attempt_def w')
  have a: "\<forall>j<k. isl (attempt cl ?rq (world nt') j)"
    using Suc.prems(1) shift by auto
  have b: "attempt cl ?rq (world nt') k = Inr c"
    using Suc.prems(2) shift by simp
  have c: "int k \<le> n - 1" using Suc.prems(3) by simp
  have pos: "0 < n" using Suc.prems(3) by simp
  have "get_completion cl self text n nt = get_completion cl self text (n - 1) nt'"
    by (subst get_completion.simps) (simp add: step e pos)
  also have "\<dots> = (Inr c, after_attempts cl ?rq (Suc k) nt')"
    by (rule Suc.IH [OF a b c])
  also have "after_attempts cl ?rq (Suc k) nt' = after_attempts cl ?rq (Suc (Suc k)) nt"
    using after_attempts_step [of cl ?rq "Suc k" nt] step by simp
  finally show ?case .
qed

lemma get_completion_exhausted:
  assumes "\<forall>j\<le>k. isl (attempt cl (completion_request self text) (world nt) j)"
  shows "get_completion cl self text (int k) nt
           = (Inl (ValueError UnableToReturnCompletion),
              after_attempts cl (completion_request self text) (Suc k) nt)"
  using assms
proof (induction k arbitrary: nt)
  case 0
  let ?rq = "completion_request self text"
  obtain r nt' where step: "ChatCompletion_create cl ?rq nt = (r, nt')"
    by (cases "ChatCompletion_create cl ?rq nt")
  have r: "r = attempt cl ?rq (world nt) 0"
    using step by (auto simp: ChatCompletion_create_def split_beta attempt_def)
  from 0 have "isl (attempt cl ?rq (world nt) 0)" by blast
  with r obtain e where e: "r = Inl e" by (metis isl_def)
  have "nt' = after_attempts cl ?rq (Suc 0) nt"
    using step by (auto simp: ChatCompletion_create_def split_beta after_attempts_def)
  then show ?case by (subst get_completion.simps) (simp add: step e)
next
  case (Suc k)
  let ?rq = "completion_request self text"
  obtain r nt' where step: "ChatCompletion_create cl ?rq nt = (r, nt')"
    by (cases "ChatCompletion_create cl ?rq nt")
  have w': "world nt' = snd (cl ?rq (world nt))"
    using step by (auto simp: ChatCompletion_create_def split_beta)
  have r: "r = attempt cl ?rq (world nt) 0"
    using step by (auto simp: ChatCompletion_create_def split_beta attempt_def)
  from Suc.prems have "isl (attempt cl ?rq (world nt) 0)" by blast
  with r obtain e where e: "r = Inl e" by (metis isl_def)
  have shift: "\<And>j. attempt cl ?rq (world nt') j = attempt cl ?rq (world nt) (Suc j)"
    by (simp add: attempt_def w')
  have a: "\<forall>j\<le>k. isl (attempt cl ?rq (world nt') j)"
    using Suc.prems shift by auto
  have "get_completion cl self text (int (Suc k)) nt = get_completion cl self text (int k) nt'"
    by (subst get_completion.simps) (simp add: step e)
  also have "\<dots> = (Inl (ValueError UnableToReturnCompletion), after_attempts cl ?rq (Suc k) nt')"
    by (rule Suc.IH [OF a])
  also have "after_attempts cl ?rq (Suc k) nt' = after_attempts cl ?rq (Suc (Suc k)) nt"
    using after_attempts_step [of cl ?rq "Suc k" nt] step by simp
  finally show ?case .
qed

lemma scripted_empty: "world_after scripted rq [] j = []"
  by (induction j) (simp_all add: scripted_def)

lemma summarize_after_chunks:
  assumes "chunk self text = Inr cs"
    and "summarize_chunks cl self (py_enumerate 0 cs) ([], initial_summary text) nt
           = (Inr (combined, sm), nt1)"
  shows "summarize cl self text final_step nt =
     (if final_step = ''combine'' then Some (Inr (finish_combine combined sm), nt1)
      else if final_step = ''summarize'' \<and> token_limit self \<le> get_complete_token_count self combined
      then Option.bind (summarize cl self combined ''summarize'' nt1)
             (\<lambda>(r, nt2). case r of
                  Inl e \<Rightarrow> Some (Inl e, nt2)
                | Inr reduced_summary \<Rightarrow>
                    Some (Inr (finish_reduced self (get_complete_token_count self combined) sm
                                 reduced_summary), nt2))
      else if final_step = ''summarize'' then Some (finish_completion cl self combined sm nt1)
      else Some (Inl (ValueError (FinalStepUnrecognized final_step)), nt1))"
  by (subst summarize.simps) (simp add: assms Let_def)

lemma summarize_chunk_error:
  assumes "chunk self text = Inl e"
  shows "summarize cl self text final_step nt = Some (Inl e, nt)"
  by (subst summarize.simps) (simp add: assms)

lemma summarize_loop_error:
  assumes "chunk self text = Inr cs"
    and "summarize_chunks cl self (py_enumerate 0 cs) ([], initial_summary text) nt = (Inl e, nt1)"
  shows "summarize cl self text final_step nt = Some (Inl e, nt1)"
  by (subst summarize.simps) (simp add: assms)

lemma str_int_small: "str_int 1 = ''1''" "str_int 2 = ''2''"
  by code_simp+

lemma get_completion_attempts:
  assumes "get_completion cl self tx n nt = (r, nt')" and "0 \<le> n"
  shows "\<exists>j. 1 \<le> j \<and> int j \<le> n + 1 \<and> nt' = after_attempts cl (completion_request self tx) j nt"
  using assms
proof (induction cl self tx n nt rule: get_completion.induct)
  case (1 cl self tx n nt)
  let ?rq = "completion_request self tx"
  obtain r1 nt1 where step: "ChatCompletion_create cl ?rq nt = (r1, nt1)"
    by (cases "ChatCompletion_create cl ?rq nt")
  have nt1: "nt1 = after_attempts cl ?rq 1 nt"
    using step by (auto simp: ChatCompletion_create_def after_attempts_def split_beta)
  have unfold: "get_completion cl self tx n nt =
      (case r1 of Inr c \<Rightarrow> (Inr c, nt1)
       | Inl e \<Rightarrow> if 0 < n then get_completion cl self tx (n - 1) nt1
                  else (Inl (ValueError UnableToReturnCompletion), nt1))"
    by (subst get_completion.simps) (simp add: step split: sum.splits)
  show ?case
  proof (cases r1)
    case (Inr c)
    with unfold "1.prems" have "nt' = nt1" by simp
    with nt1 "1.prems"(2) show ?thesis by (intro exI [of _ 1]) simp
  next
    case (Inl e)
    show ?thesis
    proof (cases "0 < n")
      case False
      with unfold Inl "1.prems" have "nt' = nt1" by simp
      with nt1 "1.prems"(2) show ?thesis by (intro exI [of _ 1]) simp
    next
      case True
      with unfold Inl "1.prems" have rec: "get_completion cl self tx (n - 1) nt1 = (r, nt')"
        by simp
      from True have "0 \<le> n - 1" by simp
      from "1.IH" [OF step [symmetric] Inl True rec this]
      obtain j where j: "1 \<le> j" "int j \<le> n - 1 + 1"
        "nt' = after_attempts cl ?rq j nt1" by blast
      have "after_attempts cl ?rq j nt1 = after_attempts cl ?rq (Suc j) nt"
        using after_attempts_step [of cl ?rq j nt] step by simp
      with j show ?thesis by (intro exI [of _ "Suc j"]) simp
    qed
  qed
qed

lemma get_completion_sent:
  assumes "get_completion cl self text 3 nt = (r, nt')"
  shows "\<exists>j. 1 \<le> j \<and> j \<le> 4 \<and> sent nt' = sent nt @ replicate j (completion_request self text)"
proof -
  from get_completion_attempts [OF assms]
  obtain j where "1 \<le> j" "int j \<le> 3 + 1"
    "nt' = after_attempts cl (completion_request self text) j nt" by auto
  then show ?thesis by (intro exI [of _ j]) (simp add: after_attempts_def)
qed

lemma demo_chunk_text16: "chunk (demo_chunker 10 2 3330) text16 = Inr [''abcdefghij'', ''ijklmnop'']"
  by code_simp

lemma upto_snoc: "0 \<le> i \<Longrightarrow> [1..i] @ [i + 1] = [1..i + 1]"
  using upto_rec2 [of 1 "i + 1"] by simp

lemma summarize_chunks_invariant:
  assumes "summarize_chunks cl self (py_enumerate i cs) (comb, sm) nt = (Inr (comb', sm'), nt')"
    and "0 \<le> i"
    and "map fst (chunks sm) = [1..i]"
    and "cost sm = real_of_int (total_tokens sm) * price_per_token self"
  shows "map fst (chunks sm') = [1..i + int (length cs)]
       \<and> cost sm' = real_of_int (total_tokens sm') * price_per_token self
       \<and> original sm' = original sm"
  using assms
proof (induction cs arbitrary: i comb sm nt)
  case Nil
  then show ?case by simp
next
  case (Cons c cs)
  obtain r nt1 where g: "get_completion cl self c 3 nt = (r, nt1)"
    by (cases "get_completion cl self c 3 nt")
  from Cons.prems(1) g obtain k where k: "r = Inr k"
    by (cases r) auto
  let ?comb1 = "comb @ content k @ ''\<newline>''"
  let ?sm1 = "sm \<lparr> chunks := AList.update (i + 1)
                   \<lparr>chunk_input = c, chunk_output = content k\<rparr> (chunks sm),
                 total_tokens := total_tokens sm + usage_total_tokens k,
                 cost := cost sm + real_of_int (usage_total_tokens k) * price_per_token self,
                 intermediate_steps := intermediate_steps sm
                    @ [''Got completion for chunk '' @ str_int (i + 1) @ ''.''] \<rparr>"
  have rest: "summarize_chunks cl self (py_enumerate (i + 1) cs) (?comb1, ?sm1) nt1
                = (Inr (comb', sm'), nt')"
    using Cons.prems(1) g k by (simp add: Let_def)
  have fresh: "i + 1 \<notin> set (map fst (chunks sm))"
    using Cons.prems(3) by simp
  have keys: "map fst (chunks ?sm1) = [1..i + 1]"
    using fresh Cons.prems(2,3) by (simp add: update_keys upto_snoc del: set_map)
  have cst: "cost ?sm1 = real_of_int (total_tokens ?sm1) * price_per_token self"
    using Cons.prems(4) by (simp add: algebra_simps)
  have nonneg: "0 \<le> i + 1" using Cons.prems(2) by simp
  from Cons.IH [OF rest nonneg keys cst]
  show ?case by (simp add: ac_simps)
qed

lemma initial_loop_invariant:
  assumes "summarize_chunks cl self (py_enumerate 0 cs) ([], initial_summary text) nt
             = (Inr (comb, sm), nt')"
  shows "map fst (chunks sm) = [1..int (length cs)]
       \<and> cost sm = real_of_int (total_tokens sm) * price_per_token self
       \<and> original sm = text"
  using summarize_chunks_invariant [OF assms] by (simp add: initial_summary_def)

lemma summarize_ok_aux:
  assumes "summarize cl self text final_step nt = Some y"
  shows "\<forall>s nt'. y = (Inr s, nt') \<longrightarrow> summary_ok self text s"
proof (rule summarize.raw_induct
    [where P = "\<lambda>cl self tx fs nt y. \<forall>s nt'. y = (Inr s, nt') \<longrightarrow> summary_ok self tx s",
     OF _ assms], goal_cases)
  case (1 rec cl self tx final_step nt y)
  note IH = "1"(1) and hyps = "1"(2)
  show ?case
  proof (intro allI impI)
    fix s nt'
    assume y: "y = (Inr s, nt')"
    from hyps y obtain cs where cs: "chunk self tx = Inr cs"
      by (cases "chunk self tx") (auto simp: Let_def)
    obtain r nt1 where loop: "summarize_chunks cl self (py_enumerate 0 cs)
        ([], initial_summary tx) nt = (r, nt1)"
      by (cases "summarize_chunks cl self (py_enumerate 0 cs) ([], initial_summary tx) nt")
    from hyps y cs loop obtain comb sm where r: "r = Inr (comb, sm)"
      by (cases r) (auto simp: Let_def)
    from initial_loop_invariant [OF loop [unfolded r]]
    have inv: "map fst (chunks sm) = [1..int (length cs)]"
      "cost sm = real_of_int (total_tokens sm) * price_per_token self"
      "original sm = tx" by simp_all
    have body: "(if final_step = ''combine'' then Some (Inr (finish_combine comb sm), nt1)
      else if final_step = ''summarize'' \<and> token_limit self \<le> get_complete_token_count self comb
      then Option.bind (rec cl self comb ''summarize'' nt1)
             (\<lambda>(r, nt2). case r of
                  Inl e \<Rightarrow> Some (Inl e, nt2)
                | Inr reduced_summary \<Rightarrow>
                    Some (Inr (finish_reduced self (get_complete_token_count self comb) sm
                                 reduced_summary), nt2))
      else if final_step = ''summarize'' then Some (finish_completion cl self comb sm nt1)
      else Some (Inl (ValueError (FinalStepUnrecognized final_step)), nt1)) = Some (Inr s, nt')"
      using hyps y cs loop r by (simp add: Let_def)
    consider (combine) "final_step = ''combine''"
      | (reduce) "final_step = ''summarize''" "token_limit self \<le> get_complete_token_count self comb"
      | (final) "final_step = ''summarize''" "\<not> token_limit self \<le> get_complete_token_count self comb"
      | (other) "final_step \<noteq> ''combine''" "final_step \<noteq> ''summarize''"
      by blast
    then show "summary_ok self tx s"
    proof cases
      case combine
      with body have "s = finish_combine comb sm" by simp
      then show ?thesis using inv cs by (simp add: summary_ok_def finish_combine_def)
    next
      case reduce
      with body obtain y1 where y1: "rec cl self comb ''summarize'' nt1 = Some y1"
        and f: "(case y1 of (r, nt2) \<Rightarrow> case r of
                  Inl e \<Rightarrow> Some (Inl e, nt2)
                | Inr reduced_summary \<Rightarrow>
                    Some (Inr (finish_reduced self (get_complete_token_count self comb) sm
                                 reduced_summary), nt2)) = Some (Inr s, nt')"
        by (auto simp: bind_eq_Some_conv)
      from f obtain red where red: "y1 = (Inr red, nt')"
        and s: "s = finish_reduced self (get_complete_token_count self comb) sm red"
        by (cases y1; cases "fst y1") auto
      from IH [OF y1] red have "summary_ok self comb red" by simp
      then have "cost red = real_of_int (total_tokens red) * price_per_token self"
        by (simp add: summary_ok_def)
      then show ?thesis using inv cs s
        by (simp add: summary_ok_def finish_reduced_def Let_def algebra_simps)
    next
      case final
      with body have fc: "finish_completion cl self comb sm nt1 = (Inr s, nt')" by simp
      obtain r2 nt2 where g: "get_completion cl self comb 3 nt1 = (r2, nt2)"
        by (cases "get_completion cl self comb 3 nt1")
      from fc g obtain k where k: "r2 = Inr k"
        by (cases r2) (auto simp: finish_completion_def)
      from fc g k show ?thesis using inv cs
        by (auto simp: finish_completion_def summary_ok_def Let_def algebra_simps)
    next
      case other
      with body show ?thesis by simp
    qed
  qed
qed

lemma reduce_run:
  "summarize scripted (demo_chunker 10 2 3330) ''abc'' ''summarize''
      \<lparr> world = reduce_script, sent = [] \<rparr>
     = Some (Inr reduce_summary, \<lparr> world = [], sent = reduce_requests \<rparr>)"
  by code_simp

lemma reduce_inner_run:
  "summarize scripted (demo_chunker 10 2 3330) ''fifteen letters\<newline>'' ''summarize''
      \<lparr> world = tl reduce_script,
        sent = [completion_request (demo_chunker 10 2 3330) ''abc''] \<rparr>
     = Some (Inr inner_summary, \<lparr> world = [], sent = reduce_requests \<rparr>)"
  by code_simp

lemma str_int_counts: "str_int 4096 = ''4096''" "str_int 4083 = ''4083''"
  by code_simp+

lemma finish_reduced_unfold:
  "finish_reduced self n sm red =
     sm \<lparr> total_tokens := total_tokens sm + total_tokens red,
          cost := cost sm + cost red,
          intermediate_steps := intermediate_steps sm
            @ [''Reduced summary from '' @ str_int n @ '' to '' @
               str_int (get_complete_token_count self (result red)) @ ''.''],
          result := result red \<rparr>"
  by (simp add: finish_reduced_def Let_def)

lemma finish_completion_unfold:
  "finish_completion cl self comb sm nt =
     (case get_completion cl self comb 3 nt of
        (Inl e, nt2) \<Rightarrow> (Inl e, nt2)
      | (Inr k, nt2) \<Rightarrow>
          (Inr (sm \<lparr> result := content k,
                      total_tokens := total_tokens sm + usage_total_tokens k,
                      cost := cost sm + real_of_int (usage_total_tokens k) * price_per_token self,
                      intermediate_steps := intermediate_steps sm
                        @ [''Got completion for combined summaries.''] \<rparr>), nt2))"
  by (simp add: finish_completion_def Let_def split: prod.splits sum.splits)

lemma finish_reduced_last_step:
  "last (intermediate_steps (finish_reduced self n sm red))
     \<noteq> ''Got completion for combined summaries.''"
  by (simp add: finish_reduced_def Let_def)

lemma finish_completion_last_step:
  assumes "finish_completion cl self comb sm nt = (Inr s, nt')"
  shows "last (intermediate_steps s) = ''Got completion for combined summaries.''"
  using assms
  by (auto simp: finish_completion_def Let_def split: prod.splits sum.splits)

lemma bind_reduced_result:
  assumes "Option.bind m (\<lambda>(r, nt2). case r of
                 Inl e \<Rightarrow> Some (Inl e, nt2)
               | Inr red \<Rightarrow> Some (Inr (g red), nt2)) = Some (Inr s, nt')"
  shows "\<exists>red. m = Some (Inr red, nt') \<and> s = g red"
  using assms by (cases m) (auto split: sum.splits)

lemma demo_chunk_abc: "chunk (demo_chunker 10 2 3330) ''abc'' = Inr [''abc'']"
  by code_simp

lemma demo_loop_abc:
  "summarize_chunks scripted (demo_chunker 10 2 3330) (py_enumerate 0 [''abc''])
       ([], initial_summary ''abc'') \<lparr> world = Inr (demo_completion out 7) # rest, sent = [] \<rparr>
     = (Inr (out @ ''\<newline>'', after_first_chunk out),
        \<lparr> world = rest, sent = [completion_request (demo_chunker 10 2 3330) ''abc''] \<rparr>)"
  by (simp add: get_completion.simps ChatCompletion_create_def scripted_def Let_def
      initial_summary_def after_first_chunk_def demo_completion_def str_int_small
      demo_chunker_def)

lemma range_up_closed:
  assumes "0 < step"
  shows "\<exists>m. range_up i stop step = map (\<lambda>k. i + int k * step) [0..<m]
             \<and> (\<forall>k. k < m \<longleftrightarrow> i + int k * step < stop)"
  using assms
proof (induction i stop step rule: range_up.induct)
  case (1 i stop step)
  show ?case
  proof (cases "i < stop")
    case False
    have "\<And>k. \<not> i + int k * step < stop"
    proof
      fix k assume "i + int k * step < stop"
      moreover have "0 \<le> int k * step" using "1.prems" by simp
      ultimately show False using False by linarith
    qed
    then show ?thesis using False by (intro exI [of _ 0]) simp
  next
    case True
    with "1.IH" "1.prems" obtain m where
      m: "range_up (i + step) stop step = map (\<lambda>k. i + step + int k * step) [0..<m]"
      and km: "\<And>k. k < m \<longleftrightarrow> i + step + int k * step < stop"
      by blast
    have a: "range_up i stop step = map (\<lambda>k. i + int k * step) [0..<Suc m]"
    proof -
      have "map (\<lambda>k. i + int k * step) [0..<Suc m]
              = i # map (\<lambda>k. i + int (Suc k) * step) [0..<m]"
        by (simp add: upt_conv_Cons map_Suc_upt [symmetric] del: upt_Suc)
      also have "map (\<lambda>k. i + int (Suc k) * step) [0..<m]
              = map (\<lambda>k. i + step + int k * step) [0..<m]"
        by (simp add: algebra_simps)
      finally show ?thesis
        using True "1.prems" m by (subst range_up.simps) simp
    qed
    have b: "\<forall>k. k < Suc m \<longleftrightarrow> i + int k * step < stop"
    proof
      fix k
      show "k < Suc m \<longleftrightarrow> i + int k * step < stop"
      proof (cases k)
        case 0
        then show ?thesis using True by simp
      next
        case (Suc k')
        then show ?thesis using km [of k'] by (simp add: algebra_simps)
      qed
    qed
    from a b show ?thesis by blast
  qed
qed


lemma chunk_windows_closed:
  assumes "0 < max_chunk_length self" and "chunk_overlap self < max_chunk_length self"
  shows "\<exists>m. chunk_windows self tokens =
               Inr (map (\<lambda>k. (int k * (max_chunk_length self - chunk_overlap self),
                               min (int k * (max_chunk_length self - chunk_overlap self)
                                      + max_chunk_length self) (int (length tokens))))
                      [0..<m])
           \<and> (\<forall>k. k < m \<longleftrightarrow>
                  int k * (max_chunk_length self - chunk_overlap self) < int (length tokens))"
proof -
  let ?step = "max_chunk_length self - chunk_overlap self"
  let ?n = "int (length tokens)"
  have step: "0 < ?step" using assms(2) by simp
  have "\<exists>m. range_up 0 ?n ?step = map (\<lambda>k. int k * ?step) [0..<m]
            \<and> (\<forall>k. k < m \<longleftrightarrow> int k * ?step < ?n)"
    using range_up_closed [OF step, of 0 ?n] by simp
  then obtain m where
    m: "range_up 0 ?n ?step = map (\<lambda>k. int k * ?step) [0..<m]"
    and km: "\<forall>k. k < m \<longleftrightarrow> int k * ?step < ?n" by blast
  have w: "slice_indices ?n (int k * ?step) (int k * ?step + max_chunk_length self)
            = (int k * ?step, min (int k * ?step + max_chunk_length self) ?n)" if "k < m" for k
  proof -
    have lt: "int k * ?step < ?n" using km that by blast
    have ge: "0 \<le> int k * ?step" using step by simp
    show ?thesis
      using lt ge assms(1) by (simp add: slice_indices_def adjust_index_def)
  qed
  have "map (\<lambda>i. slice_indices ?n i (i + max_chunk_length self)) (map (\<lambda>k. int k * ?step) [0..<m])
      = map (\<lambda>k. (int k * ?step, min (int k * ?step + max_chunk_length self) ?n)) [0..<m]"
    by (simp add: w)
  then have "chunk_windows self tokens =
      Inr (map (\<lambda>k. (int k * ?step, min (int k * ?step + max_chunk_length self) ?n)) [0..<m])"
    using step m by (simp add: chunk_windows_def py_range_def)
  with km show ?thesis by blast
qed

lemma cover_count_card:
  "cover_count (map g [0..<m]) j = card {k. k < m \<and> in_window j (g k)}"
proof -
  have "cover_count (map g [0..<m]) j = length (filter (\<lambda>k. in_window j (g k)) [0..<m])"
    by (simp add: cover_count_def filter_map comp_def)
  also have "\<dots> = card ({k. in_window j (g k)} \<inter> set [0..<m])"
    by (rule distinct_length_filter) simp
  also have "{k. in_window j (g k)} \<inter> set [0..<m] = {k. k < m \<and> in_window j (g k)}"
    by auto
  finally show ?thesis .
qed

lemma mult_le_imp_le_div:
  assumes "0 < (s::int)" and "k * s \<le> j"
  shows "k \<le> j div s"
proof -
  have "(k * s) div s \<le> j div s" using assms by (intro zdiv_mono1) auto
  then show ?thesis using assms(1) by simp
qed

lemma less_mult_imp_div_less:
  assumes "0 < (s::int)" and "j < k * s"
  shows "j div s < k"
proof (rule ccontr)
  assume "\<not> j div s < k"
  then have "k \<le> j div s" by simp
  then have "k * s \<le> (j div s) * s" using assms(1) by (intro mult_right_mono) auto
  also have "\<dots> \<le> j"
    using div_mult_mod_eq [of j s] pos_mod_sign [of s j] assms(1) by linarith
  finally show False using assms(2) by simp
qed


lemma in_stride_window:
  "in_window j (stride_window step maxl n k)
     \<longleftrightarrow> int k * step \<le> j \<and> j < int k * step + maxl \<and> j < n"
  by (auto simp: in_window_def stride_window_def)

lemma finite_covering: "finite {k. k < (m::nat) \<and> P k}"
  by (rule finite_subset [of _ "{..<m}"]) auto

lemma covering_nonempty:
  assumes step: "0 < step" and le: "step \<le> maxl"
    and km: "\<forall>k. k < m \<longleftrightarrow> int k * step < n"
    and j: "0 \<le> j" "j < n"
  shows "1 \<le> card {k. k < m \<and> in_window j (stride_window step maxl n k)}"
proof -
  let ?k = "nat (j div step)"
  have q: "int ?k = j div step"
    using step j(1) by (simp add: pos_imp_zdiv_nonneg_iff)
  have dm: "j div step * step + j mod step = j" by simp
  have m0: "0 \<le> j mod step" and m1: "j mod step < step" using step by simp_all
  have lo: "int ?k * step \<le> j" unfolding q using dm m0 by linarith
  have hi: "j < int ?k * step + step" unfolding q using dm m1 by linarith
  have "?k < m" using km lo j(2) by auto
  then have "?k \<in> {k. k < m \<and> in_window j (stride_window step maxl n k)}"
    using lo hi le j(2) by (simp add: in_stride_window)
  then have "{k. k < m \<and> in_window j (stride_window step maxl n k)} \<noteq> {}" by blast
  then have "0 < card {k. k < m \<and> in_window j (stride_window step maxl n k)}"
    by (simp add: card_gt_0_iff finite_covering)
  then show ?thesis by simp
qed

lemma covering_at_most_two:
  assumes step: "0 < step" and le: "maxl \<le> 2 * step"
  shows "card {k. k < m \<and> in_window j (stride_window step maxl n k)} \<le> 2"
proof -
  let ?q = "j div step"
  have sub: "{k. k < m \<and> in_window j (stride_window step maxl n k)} \<subseteq> {nat ?q, nat (?q - 1)}"
  proof
    fix k assume "k \<in> {k. k < m \<and> in_window j (stride_window step maxl n k)}"
    then have lo: "int k * step \<le> j" and hi: "j < int k * step + maxl"
      by (simp_all add: in_stride_window)
    from lo have a: "int k \<le> ?q" using step by (rule mult_le_imp_le_div [rotated])
    have "j < (int k + 2) * step" using hi le by (simp add: algebra_simps)
    then have b: "?q < int k + 2" using step by (rule less_mult_imp_div_less [rotated])
    from a b have "int k = ?q \<or> int k = ?q - 1" by linarith
    then have "k = nat ?q \<or> k = nat (?q - 1)" by auto
    then show "k \<in> {nat ?q, nat (?q - 1)}" by blast
  qed
  have "card {k. k < m \<and> in_window j (stride_window step maxl n k)} \<le> card {nat ?q, nat (?q - 1)}"
    by (rule card_mono [OF _ sub]) simp
  also have "\<dots> \<le> 2" by (simp add: card_insert_if)
  finally show ?thesis .
qed

lemma covering_consecutive:
  assumes "Suc k < m" and "in_window j (stride_window step maxl n k)"
    and "in_window j (stride_window step maxl n (Suc k))"
  shows "2 \<le> card {k. k < m \<and> in_window j (stride_window step maxl n k)}"
proof -
  have sub: "{k, Suc k} \<subseteq> {k. k < m \<and> in_window j (stride_window step maxl n k)}"
    using assms by auto
  have "card {k, Suc k} \<le> card {k. k < m \<and> in_window j (stride_window step maxl n k)}"
    by (rule card_mono [OF finite_covering sub])
  then show ?thesis by simp
qed

lemma demo_windows_25:
  "chunk_windows (demo_chunker 10 2 3330) (tokenize (demo_chunker 10 2 3330) text25)
     = Inr [(0, 10), (8, 18), (16, 25), (24, 25)]"
  by code_simp

subsection \<open>Chunking\<close>

text \<open>
  C1, as the code has it. With \<^verbatim>\<open>max_chunk_length=10\<close> and \<^verbatim>\<open>chunk_overlap=2\<close>, a text of
  25 tokens that does not fit is cut into four chunks, not three: the loop walks
  \<^verbatim>\<open>range(0, 25, 8)\<close>, which is 0, 8, 16 and 24, so after the windows [0,10), [8,18) and
  [16,25) there is a fourth window [24,25) that holds the last token alone.
\<close>

theorem chunk_25_tokens_four_windows:
  assumes "max_chunk_length self = 10" and "chunk_overlap self = 2"
    and "token_limit self \<le> get_complete_token_count self text"
    and "length (tokenize self text) = 25"
  shows "chunk_windows self (tokenize self text) = Inr [(0, 10), (8, 18), (16, 25), (24, 25)]
       \<and> chunk self text =
           Inr (map (\<lambda>w. decode_tokens self (window_tokens (tokenize self text) w))
                  [(0, 10), (8, 18), (16, 25), (24, 25)])"
proof -
  have ws: "chunk_windows self (tokenize self text) = Inr [(0, 10), (8, 18), (16, 25), (24, 25)]"
    using assms(1,2,4)
    by (simp add: chunk_windows_def py_range_def range_up_0_25_8 slice_indices_def
        adjust_index_def)
  show ?thesis
    using ws chunk_split [OF assms(3)] by simp
qed

theorem chunk_25_tokens_four_windows_witness:
  "chunk_windows (demo_chunker 10 2 3330) (tokenize (demo_chunker 10 2 3330) text25)
     = Inr [(0, 10), (8, 18), (16, 25), (24, 25)]
   \<and> chunk (demo_chunker 10 2 3330) text25
       = Inr [''abcdefghij'', ''ijklmnopqr'', ''qrstuvwxy'', ''y'']"
proof -
  have a: "max_chunk_length (demo_chunker 10 2 3330) = 10"
    and b: "chunk_overlap (demo_chunker 10 2 3330) = 2"
    by (simp_all add: demo_chunker_def)
  have c: "token_limit (demo_chunker 10 2 3330) \<le> get_complete_token_count (demo_chunker 10 2 3330) text25"
    by (simp add: demo_complete_count) (simp add: demo_chunker_def text25_def)
  have d: "length (tokenize (demo_chunker 10 2 3330) text25) = 25"
    by (simp add: tokenize_def demo_chunker_def char_encoding_def text25_def)
  have e: "map (\<lambda>w. decode_tokens (demo_chunker 10 2 3330)
                    (window_tokens (tokenize (demo_chunker 10 2 3330) text25) w))
             [(0, 10), (8, 18), (16, 25), (24, 25)]
           = [''abcdefghij'', ''ijklmnopqr'', ''qrstuvwxy'', ''y'']"
    by code_simp
  show ?thesis
    using chunk_25_tokens_four_windows [OF a b c d] e by simp
qed

theorem chunk_25_tokens_not_three:
  "token_limit (demo_chunker 10 2 3330) \<le> get_complete_token_count (demo_chunker 10 2 3330) text25
   \<and> length (tokenize (demo_chunker 10 2 3330) text25) = 25
   \<and> chunk (demo_chunker 10 2 3330) text25
       = Inr [''abcdefghij'', ''ijklmnopqr'', ''qrstuvwxy'', ''y'']
   \<and> chunk_windows (demo_chunker 10 2 3330) (tokenize (demo_chunker 10 2 3330) text25)
       \<noteq> Inr [(0, 10), (8, 18), (16, 25)]"
  by code_simp

text \<open>
  C2, as the code has it. For a configuration with \<open>0 \<le> chunk_overlap < max_chunk_length\<close>
  and a text that does not fit, the loop yields windows that lie inside the token sequence,
  none of them empty, and that together cover every token index at least once. An index
  lies in at most two windows, and an index shared by two consecutive windows lies in
  exactly those two, when the overlap is at most half the chunk length; with a larger
  overlap the stride is shorter than the overlap and an index can lie in three chunks or
  more, as the example after the theorem shows.
\<close>

theorem chunk_windows_cover:
  assumes "0 < max_chunk_length self" and "0 \<le> chunk_overlap self"
    and "chunk_overlap self < max_chunk_length self"
    and "token_limit self \<le> get_complete_token_count self text"
  shows "\<exists>ws. chunk_windows self (tokenize self text) = Inr ws
      \<and> chunk self text = Inr (map (\<lambda>w. decode_tokens self (window_tokens (tokenize self text) w)) ws)
      \<and> (\<forall>w \<in> set ws. 0 \<le> fst w \<and> fst w < snd w \<and> snd w \<le> int (length (tokenize self text)))
      \<and> (\<forall>j. 0 \<le> j \<and> j < int (length (tokenize self text)) \<longrightarrow> 1 \<le> cover_count ws j)
      \<and> (2 * chunk_overlap self \<le> max_chunk_length self \<longrightarrow>
           (\<forall>j. cover_count ws j \<le> 2)
           \<and> (\<forall>j k. Suc k < length ws \<and> in_window j (ws ! k) \<and> in_window j (ws ! Suc k)
                  \<longrightarrow> cover_count ws j = 2))"
proof -
  let ?toks = "tokenize self text"
  let ?step = "max_chunk_length self - chunk_overlap self"
  let ?maxl = "max_chunk_length self"
  let ?n = "int (length ?toks)"
  have step: "0 < ?step" and le: "?step \<le> ?maxl" using assms(2,3) by simp_all
  from chunk_windows_closed [OF assms(1,3), of ?toks] obtain m where
    ws: "chunk_windows self ?toks = Inr (map (stride_window ?step ?maxl ?n) [0..<m])"
    and km: "\<forall>k. k < m \<longleftrightarrow> int k * ?step < ?n"
    unfolding stride_window_def by blast
  let ?ws = "map (stride_window ?step ?maxl ?n) [0..<m]"
  have cnt: "\<And>j. cover_count ?ws j = card {k. k < m \<and> in_window j (stride_window ?step ?maxl ?n k)}"
    by (rule cover_count_card)
  have c1: "chunk self text = Inr (map (\<lambda>w. decode_tokens self (window_tokens ?toks w)) ?ws)"
    using chunk_split [OF assms(4)] ws by simp
  have c2: "\<forall>w \<in> set ?ws. 0 \<le> fst w \<and> fst w < snd w \<and> snd w \<le> ?n"
  proof
    fix w assume "w \<in> set ?ws"
    then obtain k where k: "k < m" and w: "w = stride_window ?step ?maxl ?n k" by auto
    have "int k * ?step < ?n" using km k by blast
    moreover have "0 \<le> int k * ?step" using step by simp
    ultimately show "0 \<le> fst w \<and> fst w < snd w \<and> snd w \<le> ?n"
      using w assms(1) by (simp add: stride_window_def)
  qed
  have c3: "\<forall>j. 0 \<le> j \<and> j < ?n \<longrightarrow> 1 \<le> cover_count ?ws j"
    using covering_nonempty [OF step le km] cnt by simp
  have c4: "2 * chunk_overlap self \<le> ?maxl \<longrightarrow>
           (\<forall>j. cover_count ?ws j \<le> 2)
           \<and> (\<forall>j k. Suc k < length ?ws \<and> in_window j (?ws ! k) \<and> in_window j (?ws ! Suc k)
                  \<longrightarrow> cover_count ?ws j = 2)"
  proof (intro impI conjI allI)
    assume half: "2 * chunk_overlap self \<le> ?maxl"
    then have le2: "?maxl \<le> 2 * ?step" by simp
    show two: "cover_count ?ws j \<le> 2" for j
      using covering_at_most_two [OF step le2] cnt by simp
    show "cover_count ?ws j = 2"
      if h: "Suc k < length ?ws \<and> in_window j (?ws ! k) \<and> in_window j (?ws ! Suc k)" for j k
    proof -
      from h have sk: "Suc k < m" by simp
      then have "?ws ! k = stride_window ?step ?maxl ?n k"
        and "?ws ! Suc k = stride_window ?step ?maxl ?n (Suc k)" by simp_all
      with h have "in_window j (stride_window ?step ?maxl ?n k)"
        and "in_window j (stride_window ?step ?maxl ?n (Suc k))" by simp_all
      from covering_consecutive [OF sk this] have "2 \<le> cover_count ?ws j"
        using cnt by simp
      with two [of j] show ?thesis by simp
    qed
  qed
  from ws c1 c2 c3 c4 show ?thesis by blast
qed


theorem chunk_windows_cover_witness:
  "chunk_windows (demo_chunker 10 2 3330) (tokenize (demo_chunker 10 2 3330) text25)
     = Inr [(0, 10), (8, 18), (16, 25), (24, 25)]
   \<and> 1 \<le> cover_count [(0, 10), (8, 18), (16, 25), (24, 25)] 3
   \<and> cover_count [(0, 10), (8, 18), (16, 25), (24, 25)] 12 \<le> 2
   \<and> cover_count [(0, 10), (8, 18), (16, 25), (24, 25)] 8 = 2"
proof -
  let ?self = "demo_chunker 10 2 3330"
  let ?ws0 = "[(0, 10), (8, 18), (16, 25), (24, 25)] :: (int \<times> int) list"
  have a: "0 < max_chunk_length ?self" and b: "0 \<le> chunk_overlap ?self"
    and c: "chunk_overlap ?self < max_chunk_length ?self"
    and half: "2 * chunk_overlap ?self \<le> max_chunk_length ?self"
    by (simp_all add: demo_fields)
  have d: "token_limit ?self \<le> get_complete_token_count ?self text25"
    by (simp add: demo_complete_count demo_fields text25_def)
  have n: "int (length (tokenize ?self text25)) = 25"
    by (simp add: tokenize_def demo_fields char_encoding_def text25_def)
  from chunk_windows_cover [OF a b c d] obtain ws where
    ws: "chunk_windows ?self (tokenize ?self text25) = Inr ws"
    and cover: "\<forall>j. 0 \<le> j \<and> j < int (length (tokenize ?self text25)) \<longrightarrow> 1 \<le> cover_count ws j"
    and two: "2 * chunk_overlap ?self \<le> max_chunk_length ?self \<longrightarrow>
           (\<forall>j. cover_count ws j \<le> 2)
           \<and> (\<forall>j k. Suc k < length ws \<and> in_window j (ws ! k) \<and> in_window j (ws ! Suc k)
                  \<longrightarrow> cover_count ws j = 2)"
    by blast
  have eq: "ws = ?ws0" using ws demo_windows_25 by simp
  have p1: "1 \<le> cover_count ?ws0 3" using cover n eq by simp
  have p2: "cover_count ?ws0 12 \<le> 2" using two half eq by blast
  have ov: "Suc 0 < length ?ws0 \<and> in_window 8 (?ws0 ! 0) \<and> in_window 8 (?ws0 ! Suc 0)"
    by (simp add: in_window_def)
  have p3: "cover_count ?ws0 8 = 2" using two half eq ov by blast
  show ?thesis using demo_windows_25 p1 p2 p3 by simp
qed

theorem overlap_token_in_three_chunks:
  "Chunker_init demo_services (PyStr ''sk'') (PyStr ''gpt-3.5-turbo'') (PyInt 3) (PyInt 2)
       (PyInt 3343) (PyFloat 0) None = Inr (demo_chunker 3 2 3343)
   \<and> token_limit (demo_chunker 3 2 3343) \<le> get_complete_token_count (demo_chunker 3 2 3343) ''abc''
   \<and> chunk_windows (demo_chunker 3 2 3343) (tokenize (demo_chunker 3 2 3343) ''abc'')
       = Inr [(0, 3), (1, 3), (2, 3)]
   \<and> in_window 2 (0, 3) \<and> in_window 2 (1, 3)
   \<and> cover_count [(0, 3), (1, 3), (2, 3)] 2 = 3"
proof -
  have a: "Chunker_init demo_services (PyStr ''sk'') (PyStr ''gpt-3.5-turbo'') (PyInt 3) (PyInt 2)
       (PyInt 3343) (PyFloat 0) None = Inr (demo_chunker 3 2 3343)"
    by (rule demo_init) simp_all
  have b: "token_limit (demo_chunker 3 2 3343) \<le> get_complete_token_count (demo_chunker 3 2 3343) ''abc''"
    by (simp add: demo_complete_count demo_fields)
  have c: "chunk_windows (demo_chunker 3 2 3343) (tokenize (demo_chunker 3 2 3343) ''abc'')
       = Inr [(0, 3), (1, 3), (2, 3)]"
    by code_simp
  have d: "in_window 2 (0, 3) \<and> in_window 2 (1, 3) \<and> cover_count [(0, 3), (1, 3), (2, 3)] 2 = 3"
    by (simp add: in_window_def cover_count_def)
  show ?thesis using a b c d by simp
qed

text \<open>
  C5. A text whose complete token count is strictly below the token limit comes back as the
  only chunk, unchanged. The statement holds for every tokenizer, also one whose \<open>decode\<close>
  does not invert \<open>encode\<close>: the text is returned as it is and not decoded from its tokens.
\<close>

theorem chunk_fitting_text_unchanged:
  assumes "get_complete_token_count self text < token_limit self"
  shows "chunk self text = Inr [text]"
  using assms by (rule chunk_fit)

theorem chunk_fitting_text_unchanged_witness:
  "get_complete_token_count (demo_chunker 10 2 3330) ''abc'' < token_limit (demo_chunker 10 2 3330)
   \<and> chunk (demo_chunker 10 2 3330) ''abc'' = Inr [''abc'']"
proof -
  have h: "get_complete_token_count (demo_chunker 10 2 3330) ''abc''
             < token_limit (demo_chunker 10 2 3330)"
    by (simp add: demo_complete_count) (simp add: demo_chunker_def)
  show ?thesis
    using h chunk_fitting_text_unchanged [OF h] by simp
qed

subsection \<open>Token budget\<close>

text \<open>
  C6, as the code has it. The complete token count is the token count of the system prompt
  plus that of the template wrapped around the text plus \<^verbatim>\<open>summary_length\<close>. The base
  overhead is not a summand: it contains the token count of the empty template, which the
  wrapped text already pays for, so the complete count is the sum
  \<open>base_overhead + count(wrapped text) + summary_length\<close> less the token count of the empty
  template.
\<close>

theorem complete_token_count_formula:
  "get_complete_token_count self text
     = int (length (tokenize self (system_msg self)))
       + int (length (tokenize self (USER_MSG_format text))) + summary_length self
   \<and> get_complete_token_count self text
     = get_base_token_count self + int (length (tokenize self (USER_MSG_format text)))
       + summary_length self - int (length (tokenize self (USER_MSG_format [])))"
  by (simp add: get_complete_token_count_def get_base_token_count_def)

theorem complete_token_count_not_base_plus_wrapped:
  "get_complete_token_count (demo_chunker 10 2 3330) ''abc'' = 4083
   \<and> get_base_token_count (demo_chunker 10 2 3330)
       + int (length (tokenize (demo_chunker 10 2 3330) (USER_MSG_format ''abc'')))
       + summary_length (demo_chunker 10 2 3330) = 4109"
  by (simp add: demo_complete_count demo_base_count)
     (simp add: demo_chunker_def tokenize_def char_encoding_def length_USER_MSG_format)

subsection \<open>Construction\<close>

text \<open>
  C3. The constructor compares with \<^verbatim>\<open>chunk_overlap > max_chunk_length\<close>, so an overlap
  equal to the chunk length is accepted although the message of the error says that the
  overlap must be smaller: the Chunker below is constructed, its stride is 0, and chunking
  a text that does not fit raises the \<^verbatim>\<open>ValueError\<close> of \<^verbatim>\<open>range\<close> with a zero step.
\<close>

theorem init_accepts_overlap_equal_to_chunk_length:
  "Chunker_init demo_services (PyStr ''sk'') (PyStr ''gpt-3.5-turbo'') (PyInt 10) (PyInt 10)
       (PyInt 3330) (PyFloat 0) None = Inr (demo_chunker 10 10 3330)
   \<and> max_chunk_length (demo_chunker 10 10 3330) - chunk_overlap (demo_chunker 10 10 3330) = 0
   \<and> chunk (demo_chunker 10 10 3330) text25 = Inl (ValueError RangeStepZero)"
proof -
  have a: "Chunker_init demo_services (PyStr ''sk'') (PyStr ''gpt-3.5-turbo'') (PyInt 10)
       (PyInt 10) (PyInt 3330) (PyFloat 0) None = Inr (demo_chunker 10 10 3330)"
    by (rule demo_init) simp_all
  have b: "max_chunk_length (demo_chunker 10 10 3330) - chunk_overlap (demo_chunker 10 10 3330) = 0"
    by (simp add: demo_chunker_def)
  have c: "chunk (demo_chunker 10 10 3330) text25 = Inl (ValueError RangeStepZero)"
    by code_simp
  show ?thesis using a b c by simp
qed

subsection \<open>Retrying a completion\<close>

text \<open>
  C7. With the retry budget 3 of \<^verbatim>\<open>_get_completion\<close>: if the service fails on the first
  \<open>k \<le> 3\<close> attempts and succeeds on the next, the call returns that completion and has made
  exactly \<open>k + 1\<close> attempts; if the service fails on each of the first four attempts, the
  call raises the \<^verbatim>\<open>ValueError\<close> "Unable to return completion." and has made exactly four.
\<close>

theorem get_completion_retry_bound:
  "(k \<le> 3 \<and> (\<forall>j<k. isl (attempt cl (completion_request self text) (world nt) j))
      \<and> attempt cl (completion_request self text) (world nt) k = Inr c
    \<longrightarrow> get_completion cl self text 3 nt
          = (Inr c, after_attempts cl (completion_request self text) (k + 1) nt))
   \<and> ((\<forall>j\<le>3. isl (attempt cl (completion_request self text) (world nt) j))
    \<longrightarrow> get_completion cl self text 3 nt
          = (Inl (ValueError UnableToReturnCompletion),
             after_attempts cl (completion_request self text) 4 nt))"
proof (intro conjI impI)
  assume h: "k \<le> 3 \<and> (\<forall>j<k. isl (attempt cl (completion_request self text) (world nt) j))
      \<and> attempt cl (completion_request self text) (world nt) k = Inr c"
  then have "int k \<le> 3" by simp
  with h show "get_completion cl self text 3 nt
          = (Inr c, after_attempts cl (completion_request self text) (k + 1) nt)"
    using get_completion_succeeds_after [of k cl self "text" nt c 3] by simp
next
  assume h: "\<forall>j\<le>3. isl (attempt cl (completion_request self text) (world nt) j)"
  show "get_completion cl self text 3 nt
          = (Inl (ValueError UnableToReturnCompletion),
             after_attempts cl (completion_request self text) 4 nt)"
    using get_completion_exhausted [of 3 cl self "text" nt] h by simp
qed


theorem get_completion_retry_bound_witness:
  "get_completion scripted (demo_chunker 10 2 3330) ''abc'' 3
      \<lparr> world = [Inl ''timeout'', Inl ''rate limit'', Inr (demo_completion ''s'' 7)], sent = [] \<rparr>
     = (Inr (demo_completion ''s'' 7),
        \<lparr> world = [], sent = replicate 3 (completion_request (demo_chunker 10 2 3330) ''abc'') \<rparr>)
   \<and> get_completion scripted (demo_chunker 10 2 3330) ''abc'' 3 \<lparr> world = [], sent = [] \<rparr>
     = (Inl (ValueError UnableToReturnCompletion),
        \<lparr> world = [], sent = replicate 4 (completion_request (demo_chunker 10 2 3330) ''abc'') \<rparr>)"
proof -
  let ?rq = "completion_request (demo_chunker 10 2 3330) ''abc''"
  let ?w = "[Inl ''timeout'', Inl ''rate limit'', Inr (demo_completion ''s'' 7)]"
  have k: "(2::nat) \<le> 3" by simp
  have fails: "\<forall>j<2. isl (attempt scripted ?rq ?w j)"
    by (simp add: attempt_def scripted_def less_Suc_eq numeral_2_eq_2)
  have ok: "attempt scripted ?rq ?w 2 = Inr (demo_completion ''s'' 7)"
    by (simp add: attempt_def scripted_def numeral_2_eq_2)
  have always: "\<forall>j\<le>3. isl (attempt scripted ?rq [] j)"
    by (simp add: attempt_def scripted_empty) (simp add: scripted_def)
  have w3: "world_after scripted ?rq ?w 3 = []"
    by (simp add: scripted_def numeral_3_eq_3)
  from get_completion_retry_bound
    [of 2 scripted "demo_chunker 10 2 3330" "''abc''" "\<lparr>world = ?w, sent = []\<rparr>"
        "demo_completion ''s'' 7"]
    k fails ok
  have a: "get_completion scripted (demo_chunker 10 2 3330) ''abc'' 3 \<lparr>world = ?w, sent = []\<rparr>
     = (Inr (demo_completion ''s'' 7), \<lparr> world = [], sent = replicate 3 ?rq \<rparr>)"
    by (simp add: after_attempts_def w3)
  from get_completion_retry_bound
    [of 0 scripted "demo_chunker 10 2 3330" "''abc''" "\<lparr>world = [], sent = []\<rparr>"
        "demo_completion ''s'' 7"]
    always
  have b: "get_completion scripted (demo_chunker 10 2 3330) ''abc'' 3 \<lparr> world = [], sent = [] \<rparr>
     = (Inl (ValueError UnableToReturnCompletion), \<lparr> world = [], sent = replicate 4 ?rq \<rparr>)"
    by (simp add: after_attempts_def scripted_empty)
  show ?thesis using a b by simp
qed

subsection \<open>The final step of summarize\<close>

text \<open>
  C4, as the code has it. A \<^verbatim>\<open>final_step\<close> other than \<^verbatim>\<open>'summarize'\<close> and \<^verbatim>\<open>'combine'\<close>
  never yields a summary, but the value is looked at only after the chunk loop: the text is
  chunked and a completion is requested for every chunk first. When all of them succeed the
  call raises the \<^verbatim>\<open>ValueError\<close> for the unrecognized \<^verbatim>\<open>final_step\<close>, with the requests
  of the chunk loop already sent; when chunking or a chunk completion raises, that error
  comes out instead.
\<close>

theorem summarize_unrecognized_final_step:
  assumes "final_step \<noteq> ''summarize''" and "final_step \<noteq> ''combine''"
  shows "summarize cl self text final_step nt =
     Some (case chunk self text of
             Inl e \<Rightarrow> (Inl e, nt)
           | Inr cs \<Rightarrow>
               (case summarize_chunks cl self (py_enumerate 0 cs) ([], initial_summary text) nt of
                  (Inl e, nt1) \<Rightarrow> (Inl e, nt1)
                | (Inr st, nt1) \<Rightarrow> (Inl (ValueError (FinalStepUnrecognized final_step)), nt1)))"
  by (subst summarize.simps) (simp add: assms Let_def split: sum.splits prod.splits)

theorem summarize_unrecognized_final_step_witness:
  "summarize scripted (demo_chunker 10 2 3330) ''abc'' ''merge''
      \<lparr> world = [Inr (demo_completion ''s'' 7)], sent = [] \<rparr>
     = Some (Inl (ValueError (FinalStepUnrecognized ''merge'')),
             \<lparr> world = [], sent = [completion_request (demo_chunker 10 2 3330) ''abc''] \<rparr>)"
proof -
  have a: "''merge'' \<noteq> ''summarize''" and b: "''merge'' \<noteq> ''combine''"
    by simp_all
  have c: "chunk (demo_chunker 10 2 3330) ''abc'' = Inr [''abc'']"
    by code_simp
  have d: "summarize_chunks scripted (demo_chunker 10 2 3330) (py_enumerate 0 [''abc''])
             ([], initial_summary ''abc'') \<lparr> world = [Inr (demo_completion ''s'' 7)], sent = [] \<rparr>
           = (Inr (''s\<newline>'',
                   \<lparr> original = ''abc'', result = [],
                     chunks = [(1, \<lparr>chunk_input = ''abc'', chunk_output = ''s''\<rparr>)],
                     intermediate_steps = [''Got completion for chunk 1.''],
                     total_tokens = 7, cost = 7 * (15 / 100000) \<rparr>),
              \<lparr> world = [], sent = [completion_request (demo_chunker 10 2 3330) ''abc''] \<rparr>)"
    by code_simp
  show ?thesis
    by (simp only: summarize_unrecognized_final_step [OF a b] c d sum.case prod.case)
qed

theorem summarize_unrecognized_after_requests:
  "summarize scripted (demo_chunker 10 2 3330) text16 ''merge''
      \<lparr> world = [Inr (demo_completion ''first'' 5), Inr (demo_completion ''second'' 7)],
        sent = [] \<rparr>
     = Some (Inl (ValueError (FinalStepUnrecognized ''merge'')),
             \<lparr> world = [],
               sent = [completion_request (demo_chunker 10 2 3330) ''abcdefghij'',
                       completion_request (demo_chunker 10 2 3330) ''ijklmnop''] \<rparr>)"
  by code_simp

text \<open>
  C8. With \<^verbatim>\<open>final_step='combine'\<close> on a text of two chunks whose completions succeed, the
  result is the two outputs in chunk order, each followed by one line break; the token
  total and the cost are those of the two chunk completions; and the call ends in the
  network state that the second chunk completion left, so the requests sent are those for
  the first chunk followed by those for the second, and none for the combined text.
\<close>

theorem summarize_combine_two_chunks:
  assumes "chunk self text = Inr [c1, c2]"
    and "get_completion cl self c1 3 nt = (Inr k1, nt1)"
    and "get_completion cl self c2 3 nt1 = (Inr k2, nt2)"
  shows "summarize cl self text ''combine'' nt =
           Some (Inr \<lparr> original = text,
                       result = content k1 @ ''\<newline>'' @ content k2 @ ''\<newline>'',
                       chunks = [(1, \<lparr>chunk_input = c1, chunk_output = content k1\<rparr>),
                                 (2, \<lparr>chunk_input = c2, chunk_output = content k2\<rparr>)],
                       intermediate_steps = [''Got completion for chunk 1.'',
                                             ''Got completion for chunk 2.'',
                                             ''Returned combined summaries as final step.''],
                       total_tokens = usage_total_tokens k1 + usage_total_tokens k2,
                       cost = real_of_int (usage_total_tokens k1) * price_per_token self
                              + real_of_int (usage_total_tokens k2) * price_per_token self \<rparr>,
                 nt2)
       \<and> (\<exists>a b. 1 \<le> a \<and> a \<le> 4 \<and> 1 \<le> b \<and> b \<le> 4
              \<and> sent nt2 = sent nt @ replicate a (completion_request self c1)
                                    @ replicate b (completion_request self c2))"
proof -
  let ?sm = "\<lparr> original = text, result = [],
                chunks = [(1, \<lparr>chunk_input = c1, chunk_output = content k1\<rparr>),
                          (2, \<lparr>chunk_input = c2, chunk_output = content k2\<rparr>)],
                intermediate_steps = [''Got completion for chunk 1.'',
                                      ''Got completion for chunk 2.''],
                total_tokens = usage_total_tokens k1 + usage_total_tokens k2,
                cost = real_of_int (usage_total_tokens k1) * price_per_token self
                       + real_of_int (usage_total_tokens k2) * price_per_token self \<rparr>"
  have loop: "summarize_chunks cl self (py_enumerate 0 [c1, c2]) ([], initial_summary text) nt
                = (Inr (content k1 @ ''\<newline>'' @ content k2 @ ''\<newline>'', ?sm), nt2)"
    by (simp add: assms(2,3) initial_summary_def str_int_small Let_def)
  have res: "summarize cl self text ''combine'' nt
               = Some (Inr (finish_combine (content k1 @ ''\<newline>'' @ content k2 @ ''\<newline>'') ?sm), nt2)"
    using summarize_after_chunks [OF assms(1) loop, of "''combine''"] by simp
  from get_completion_sent [OF assms(2)] obtain a
    where a: "1 \<le> a" "a \<le> 4" "sent nt1 = sent nt @ replicate a (completion_request self c1)"
    by blast
  from get_completion_sent [OF assms(3)] obtain b
    where b: "1 \<le> b" "b \<le> 4" "sent nt2 = sent nt1 @ replicate b (completion_request self c2)"
    by blast
  have "\<exists>a b. 1 \<le> a \<and> a \<le> 4 \<and> 1 \<le> b \<and> b \<le> 4
              \<and> sent nt2 = sent nt @ replicate a (completion_request self c1)
                                    @ replicate b (completion_request self c2)"
    using a b by (intro exI [of _ a] exI [of _ b]) simp
  then show ?thesis using res by (simp add: finish_combine_def)
qed

theorem summarize_combine_two_chunks_witness:
  "summarize scripted (demo_chunker 10 2 3330) text16 ''combine''
      \<lparr> world = [Inr (demo_completion ''first'' 5), Inr (demo_completion ''second'' 7)], sent = [] \<rparr>
   = Some (Inr \<lparr> original = text16,
                 result = ''first\<newline>second\<newline>'',
                 chunks = [(1, \<lparr>chunk_input = ''abcdefghij'', chunk_output = ''first''\<rparr>),
                           (2, \<lparr>chunk_input = ''ijklmnop'', chunk_output = ''second''\<rparr>)],
                 intermediate_steps = [''Got completion for chunk 1.'',
                                       ''Got completion for chunk 2.'',
                                       ''Returned combined summaries as final step.''],
                 total_tokens = 12,
                 cost = 12 * (15 / 100000) \<rparr>,
           \<lparr> world = [],
             sent = [completion_request (demo_chunker 10 2 3330) ''abcdefghij'',
                     completion_request (demo_chunker 10 2 3330) ''ijklmnop''] \<rparr>)"
proof -
  let ?self = "demo_chunker 10 2 3330"
  let ?nt = "\<lparr> world = [Inr (demo_completion ''first'' 5), Inr (demo_completion ''second'' 7)],
               sent = [] \<rparr>"
  let ?nt1 = "\<lparr> world = [Inr (demo_completion ''second'' 7)],
                sent = [completion_request ?self ''abcdefghij''] \<rparr>"
  let ?nt2 = "\<lparr> world = ([] :: (string + completion) list),
                sent = [completion_request ?self ''abcdefghij'',
                        completion_request ?self ''ijklmnop''] \<rparr>"
  have g1: "get_completion scripted ?self ''abcdefghij'' 3 ?nt = (Inr (demo_completion ''first'' 5), ?nt1)"
    by (subst get_completion.simps) (simp add: ChatCompletion_create_def scripted_def)
  have g2: "get_completion scripted ?self ''ijklmnop'' 3 ?nt1 = (Inr (demo_completion ''second'' 7), ?nt2)"
    by (subst get_completion.simps) (simp add: ChatCompletion_create_def scripted_def)
  have p: "price_per_token ?self = 15 / 100000"
    by (simp add: demo_chunker_def)
  from summarize_combine_two_chunks [OF demo_chunk_text16 g1 g2]
  show ?thesis by (simp add: demo_completion_def p)
qed

text \<open>
  C9. Once the chunk loop of a call with \<^verbatim>\<open>final_step='summarize'\<close> is through, with the
  combined summaries \<open>combined\<close>, the summary \<open>sm\<close> and the network state \<open>nt1\<close>:
  \<^item> if the complete token count of \<open>combined\<close> is at least the token limit, the call is the
    recursive call \<open>summarize combined\<close> from \<open>nt1\<close>, whose token total and cost are added,
    whose result is adopted and whose reduction is logged (so the call returns only if the
    recursive call does);
  \<^item> if the count is below the limit, there is no recursive call: the call is decided by one
    \<^verbatim>\<open>_get_completion\<close> over \<open>combined\<close> from \<open>nt1\<close>, whose content becomes the result and
    whose usage is added to the totals, and the requests sent after the chunk loop are
    between one and four copies of the request for \<open>combined\<close> and nothing else;
  \<^item> the last step of a returned summary is "Got completion for combined summaries."
    exactly when the combined summaries fit.
\<close>

theorem summarize_recursion_condition:
  assumes "chunk self text = Inr cs"
    and "summarize_chunks cl self (py_enumerate 0 cs) ([], initial_summary text) nt
           = (Inr (combined, sm), nt1)"
  shows "(token_limit self \<le> get_complete_token_count self combined \<longrightarrow>
            summarize cl self text ''summarize'' nt =
              Option.bind (summarize cl self combined ''summarize'' nt1)
                (\<lambda>(r, nt2). case r of
                     Inl e \<Rightarrow> Some (Inl e, nt2)
                   | Inr reduced_summary \<Rightarrow>
                       Some (Inr (sm
                         \<lparr> total_tokens := total_tokens sm + total_tokens reduced_summary,
                           cost := cost sm + cost reduced_summary,
                           intermediate_steps := intermediate_steps sm
                             @ [''Reduced summary from ''
                                @ str_int (get_complete_token_count self combined) @ '' to ''
                                @ str_int (get_complete_token_count self (result reduced_summary))
                                @ ''.''],
                           result := result reduced_summary \<rparr>), nt2)))
       \<and> (get_complete_token_count self combined < token_limit self \<longrightarrow>
            summarize cl self text ''summarize'' nt
              = Some (case get_completion cl self combined 3 nt1 of
                        (Inl e, nt2) \<Rightarrow> (Inl e, nt2)
                      | (Inr k, nt2) \<Rightarrow>
                          (Inr (sm
                             \<lparr> result := content k,
                               total_tokens := total_tokens sm + usage_total_tokens k,
                               cost := cost sm
                                 + real_of_int (usage_total_tokens k) * price_per_token self,
                               intermediate_steps := intermediate_steps sm
                                 @ [''Got completion for combined summaries.''] \<rparr>), nt2))
            \<and> (\<exists>j. 1 \<le> j \<and> j \<le> 4
                   \<and> snd (get_completion cl self combined 3 nt1)
                       = after_attempts cl (completion_request self combined) j nt1
                   \<and> sent (snd (get_completion cl self combined 3 nt1))
                       = sent nt1 @ replicate j (completion_request self combined)))
       \<and> (\<forall>s nt'. summarize cl self text ''summarize'' nt = Some (Inr s, nt') \<longrightarrow>
            (last (intermediate_steps s) = ''Got completion for combined summaries.'')
              = (get_complete_token_count self combined < token_limit self))"
proof (intro conjI impI allI)
  assume big: "token_limit self \<le> get_complete_token_count self combined"
  have "summarize cl self text ''summarize'' nt =
              Option.bind (summarize cl self combined ''summarize'' nt1)
                (\<lambda>(r, nt2). case r of
                     Inl e \<Rightarrow> Some (Inl e, nt2)
                   | Inr reduced_summary \<Rightarrow>
                       Some (Inr (finish_reduced self (get_complete_token_count self combined)
                                    sm reduced_summary), nt2))"
    using summarize_after_chunks [OF assms, of "''summarize''"] big by simp
  then show "summarize cl self text ''summarize'' nt =
              Option.bind (summarize cl self combined ''summarize'' nt1)
                (\<lambda>(r, nt2). case r of
                     Inl e \<Rightarrow> Some (Inl e, nt2)
                   | Inr reduced_summary \<Rightarrow>
                       Some (Inr (sm
                         \<lparr> total_tokens := total_tokens sm + total_tokens reduced_summary,
                           cost := cost sm + cost reduced_summary,
                           intermediate_steps := intermediate_steps sm
                             @ [''Reduced summary from ''
                                @ str_int (get_complete_token_count self combined) @ '' to ''
                                @ str_int (get_complete_token_count self (result reduced_summary))
                                @ ''.''],
                           result := result reduced_summary \<rparr>), nt2))"
    unfolding finish_reduced_unfold .
next
  assume small: "get_complete_token_count self combined < token_limit self"
  have "summarize cl self text ''summarize'' nt
              = Some (finish_completion cl self combined sm nt1)"
    using summarize_after_chunks [OF assms, of "''summarize''"] small by simp
  then show "summarize cl self text ''summarize'' nt
              = Some (case get_completion cl self combined 3 nt1 of
                        (Inl e, nt2) \<Rightarrow> (Inl e, nt2)
                      | (Inr k, nt2) \<Rightarrow>
                          (Inr (sm
                             \<lparr> result := content k,
                               total_tokens := total_tokens sm + usage_total_tokens k,
                               cost := cost sm
                                 + real_of_int (usage_total_tokens k) * price_per_token self,
                               intermediate_steps := intermediate_steps sm
                                 @ [''Got completion for combined summaries.''] \<rparr>), nt2))"
    unfolding finish_completion_unfold .
next
  assume "get_complete_token_count self combined < token_limit self"
  obtain r nt2 where g: "get_completion cl self combined 3 nt1 = (r, nt2)"
    by (cases "get_completion cl self combined 3 nt1")
  from get_completion_attempts [OF g] obtain j where
    "1 \<le> j" "int j \<le> 3 + 1" "nt2 = after_attempts cl (completion_request self combined) j nt1"
    by auto
  then show "\<exists>j. 1 \<le> j \<and> j \<le> 4
                   \<and> snd (get_completion cl self combined 3 nt1)
                       = after_attempts cl (completion_request self combined) j nt1
                   \<and> sent (snd (get_completion cl self combined 3 nt1))
                       = sent nt1 @ replicate j (completion_request self combined)"
    using g by (intro exI [of _ j]) (simp add: after_attempts_def)
next
  fix s nt'
  assume ret: "summarize cl self text ''summarize'' nt = Some (Inr s, nt')"
  show "(last (intermediate_steps s) = ''Got completion for combined summaries.'')
              = (get_complete_token_count self combined < token_limit self)"
  proof (cases "get_complete_token_count self combined < token_limit self")
    case True
    then have "finish_completion cl self combined sm nt1 = (Inr s, nt')"
      using summarize_after_chunks [OF assms, of "''summarize''"] ret by simp
    from finish_completion_last_step [OF this] True show ?thesis by simp
  next
    case False
    then have "Option.bind (summarize cl self combined ''summarize'' nt1)
                (\<lambda>(r, nt2). case r of
                     Inl e \<Rightarrow> Some (Inl e, nt2)
                   | Inr reduced_summary \<Rightarrow>
                       Some (Inr (finish_reduced self (get_complete_token_count self combined)
                                    sm reduced_summary), nt2)) = Some (Inr s, nt')"
      using summarize_after_chunks [OF assms, of "''summarize''"] ret by simp
    from bind_reduced_result [OF this]
    obtain red where "s = finish_reduced self (get_complete_token_count self combined) sm red"
      by blast
    with finish_reduced_last_step False show ?thesis by simp
  qed
qed

theorem summarize_recursion_condition_witness:
  "summarize scripted (demo_chunker 10 2 3330) ''abc'' ''summarize''
      \<lparr> world = reduce_script, sent = [] \<rparr>
     = Some (Inr \<lparr> original = ''abc'', result = ''fin'',
                   chunks = [(1, \<lparr>chunk_input = ''abc'', chunk_output = ''fifteen letters''\<rparr>)],
                   intermediate_steps = [''Got completion for chunk 1.'',
                                         ''Reduced summary from 4096 to 4083.''],
                   total_tokens = 13, cost = 13 * (15 / 100000) \<rparr>,
             \<lparr> world = [],
               sent = map (completion_request (demo_chunker 10 2 3330))
                        [''abc'', ''fifteen le'', ''letters\<newline>'', ''a\<newline>b\<newline>''] \<rparr>)
   \<and> summarize scripted (demo_chunker 10 2 3330) ''abc'' ''summarize''
      \<lparr> world = fit_script, sent = [] \<rparr>
     = Some (Inr \<lparr> original = ''abc'', result = ''fin'',
                   chunks = [(1, \<lparr>chunk_input = ''abc'', chunk_output = ''s''\<rparr>)],
                   intermediate_steps = [''Got completion for chunk 1.'',
                                         ''Got completion for combined summaries.''],
                   total_tokens = 10, cost = 10 * (15 / 100000) \<rparr>,
             \<lparr> world = [],
               sent = map (completion_request (demo_chunker 10 2 3330))
                        [''abc'', ''s\<newline>''] \<rparr>)"
proof -
  let ?self = "demo_chunker 10 2 3330"
  let ?nt1 = "\<lparr> world = tl fit_script, sent = [completion_request ?self ''abc''] \<rparr>"
  have big: "get_complete_token_count ?self ''fifteen letters\<newline>'' = 4096"
    by (simp add: demo_complete_count)
  have small: "get_complete_token_count ?self ''s\<newline>'' = 4082"
    by (simp add: demo_complete_count)
  have fin: "get_complete_token_count ?self ''fin'' = 4083"
    by (simp add: demo_complete_count)
  have lim: "token_limit ?self = 4096" and price: "price_per_token ?self = 15 / 100000"
    by (simp_all add: demo_chunker_def)
  have l1: "summarize_chunks scripted ?self (py_enumerate 0 [''abc''])
       ([], initial_summary ''abc'') \<lparr> world = reduce_script, sent = [] \<rparr>
     = (Inr (''fifteen letters\<newline>'', after_first_chunk ''fifteen letters''),
        \<lparr> world = tl reduce_script, sent = [completion_request ?self ''abc''] \<rparr>)"
    using demo_loop_abc [of "''fifteen letters''" "tl reduce_script"]
    by (simp add: reduce_script_def)
  have l2: "summarize_chunks scripted ?self (py_enumerate 0 [''abc''])
       ([], initial_summary ''abc'') \<lparr> world = fit_script, sent = [] \<rparr>
     = (Inr (''s\<newline>'', after_first_chunk ''s''), ?nt1)"
    using demo_loop_abc [of "''s''" "tl fit_script"]
    by (simp add: fit_script_def)
  have g: "get_completion scripted ?self ''s\<newline>'' 3 ?nt1
             = (Inr (demo_completion ''fin'' 3),
                \<lparr> world = [], sent = [completion_request ?self ''abc'',
                                       completion_request ?self ''s\<newline>''] \<rparr>)"
    by (subst get_completion.simps)
       (simp add: fit_script_def ChatCompletion_create_def scripted_def)
  have a: "summarize scripted ?self ''abc'' ''summarize'' \<lparr> world = reduce_script, sent = [] \<rparr>
     = Some (Inr \<lparr> original = ''abc'', result = ''fin'',
                   chunks = [(1, \<lparr>chunk_input = ''abc'', chunk_output = ''fifteen letters''\<rparr>)],
                   intermediate_steps = [''Got completion for chunk 1.'',
                                         ''Reduced summary from 4096 to 4083.''],
                   total_tokens = 13, cost = 13 * (15 / 100000) \<rparr>,
             \<lparr> world = [], sent = reduce_requests \<rparr>)"
    using summarize_recursion_condition [OF demo_chunk_abc l1]
    by (simp add: big lim reduce_inner_run inner_summary_def after_first_chunk_def fin
        str_int_counts)
  have b: "summarize scripted ?self ''abc'' ''summarize'' \<lparr> world = fit_script, sent = [] \<rparr>
     = Some (Inr \<lparr> original = ''abc'', result = ''fin'',
                   chunks = [(1, \<lparr>chunk_input = ''abc'', chunk_output = ''s''\<rparr>)],
                   intermediate_steps = [''Got completion for chunk 1.'',
                                         ''Got completion for combined summaries.''],
                   total_tokens = 10, cost = 10 * (15 / 100000) \<rparr>,
             \<lparr> world = [], sent = [completion_request ?self ''abc'',
                                    completion_request ?self ''s\<newline>''] \<rparr>)"
    using summarize_recursion_condition [OF demo_chunk_abc l2]
    by (simp add: small lim g after_first_chunk_def demo_completion_def price)
  show ?thesis using a b by (simp add: reduce_requests_def)
qed

subsection \<open>Invariants of a returned summary\<close>

text \<open>
  C10. Every summary that \<^verbatim>\<open>summarize\<close> returns has a cost equal to its token total times
  the price per token (in exact arithmetic), has the input text as its original, and has a
  chunk dictionary whose keys are exactly 1 to \<open>n\<close> in order, for the \<open>n\<close> chunks of the
  text.
\<close>

theorem summarize_result_invariants:
  assumes "summarize cl self text final_step nt = Some (Inr s, nt')"
  shows "cost s = real_of_int (total_tokens s) * price_per_token self
       \<and> original s = text
       \<and> (\<exists>cs. chunk self text = Inr cs \<and> map fst (chunks s) = [1..int (length cs)])"
  using summarize_ok_aux [OF assms]
  by (auto simp: summary_ok_def split: sum.splits)


theorem summarize_result_invariants_witness:
  "summarize scripted (demo_chunker 10 2 3330) ''abc'' ''summarize''
      \<lparr> world = reduce_script, sent = [] \<rparr>
     = Some (Inr reduce_summary, \<lparr> world = [], sent = reduce_requests \<rparr>)
   \<and> cost reduce_summary
       = real_of_int (total_tokens reduce_summary) * price_per_token (demo_chunker 10 2 3330)
   \<and> original reduce_summary = ''abc''
   \<and> (\<exists>cs. chunk (demo_chunker 10 2 3330) ''abc'' = Inr cs
            \<and> map fst (chunks reduce_summary) = [1..int (length cs)])"
  using reduce_run summarize_result_invariants [OF reduce_run] by simp

end
